theory Spec2Isabelle
  imports
    Complex_Main
    "HOL-Library.AList"
    "HOL-Library.Char_ord"
    "HOL-Library.List_Lexorder"
    "HOL-Library.Product_Lexorder"
    "HOL-Library.Multiset"
begin

section \<open>Common data\<close>

text \<open>
  A feature path is the sequence of its steps (\<open>types.FeaturePath\<close>); equality is equality
  of the step sequences. Python's floats are idealised as reals throughout: rounding is
  not modelled.
\<close>

type_synonym feature_name = string
type_synonym feature_path = "feature_name list"

datatype py_error = IndexError | KeyError | ValueError | AssertionError | TypeError

section \<open>CombinerFeatureStatsWrapperGenerator (stats\_impl.py)\<close>

text \<open>
  A column of an Arrow table, as far as the wrapper looks at it: its name and its data,
  which only the wrapped generators inspect.
\<close>

record 'c feature_column =
  column_name :: feature_name
  column_data :: 'c

text \<open>
  A \<open>CombinerFeatureStatsGenerator\<close>: the wrapper calls \<open>create_accumulator\<close> and
  \<open>add_input\<close> of each wrapped generator. The generators are arbitrary pure functions
  on an accumulator type \<open>'a\<close>.
\<close>

record ('a, 'c) feature_generator =
  fg_create_accumulator :: 'a
  fg_add_input :: "'a \<Rightarrow> 'c feature_column \<Rightarrow> 'a"

text \<open>The fields \<open>__init__\<close> stores.\<close>

record ('a, 'c) wrapper_generator =
  feature_stats_generators :: "('a, 'c) feature_generator list"
  weight_feature :: "feature_name option"
  sample_rate :: "real option"

text \<open>\<open>WrapperAccumulator = Dict[FeaturePath, List[Any]]\<close>.\<close>

type_synonym 'a wrapper_accumulator = "feature_path \<rightharpoonup> 'a list"

definition wrapper_create_accumulator :: "'a wrapper_accumulator" where
  "wrapper_create_accumulator = Map.empty"

definition perhaps_initialize_for_feature_path ::
  "('a, 'c) wrapper_generator \<Rightarrow> 'a wrapper_accumulator \<Rightarrow> feature_path \<Rightarrow> 'a wrapper_accumulator"
where
  "perhaps_initialize_for_feature_path w wrapper_accumulator feature_path =
     (case wrapper_accumulator feature_path of
        None \<Rightarrow> wrapper_accumulator(feature_path \<mapsto>
                  map fg_create_accumulator (feature_stats_generators w))
      | Some _ \<Rightarrow> wrapper_accumulator)"

text \<open>
  The inner loop of \<open>add_input\<close> (stats\_impl.py, lines 776--778):
  \<^verbatim>\<open>
  for index, generator in enumerate(self._feature_stats_generators):
    wrapper_accumulator[feature_path][index] = generator.add_input(
        generator.create_accumulator(), feature_column)
  \<close>
  The list assignment raises \<open>IndexError\<close> when the slot list is shorter than the
  generator list.
\<close>

fun fold_into_slots ::
  "('a, 'c) feature_generator list \<Rightarrow> nat \<Rightarrow> 'c feature_column \<Rightarrow> 'a list \<Rightarrow> py_error + 'a list"
where
  "fold_into_slots [] index feature_column slots = Inr slots"
| "fold_into_slots (generator # rest) index feature_column slots =
     (if index < length slots
      then fold_into_slots rest (Suc index) feature_column
             (slots[index := fg_add_input generator (fg_create_accumulator generator) feature_column])
      else Inl IndexError)"

text \<open>The loop over \<open>input_table.itercolumns()\<close> (lines 769--778).\<close>

fun add_columns ::
  "('a, 'c) wrapper_generator \<Rightarrow> 'a wrapper_accumulator \<Rightarrow> 'c feature_column list
     \<Rightarrow> py_error + 'a wrapper_accumulator"
where
  "add_columns w wrapper_accumulator [] = Inr wrapper_accumulator"
| "add_columns w wrapper_accumulator (feature_column # rest) =
     (if Some (column_name feature_column) = weight_feature w
      then add_columns w wrapper_accumulator rest
      else
        let feature_path = [column_name feature_column];
            acc1 = perhaps_initialize_for_feature_path w wrapper_accumulator feature_path
        in case acc1 feature_path of
             None \<Rightarrow> Inl KeyError
           | Some slots \<Rightarrow>
               (case fold_into_slots (feature_stats_generators w) 0 feature_column slots of
                  Inl e \<Rightarrow> Inl e
                | Inr slots' \<Rightarrow> add_columns w (acc1(feature_path \<mapsto> slots')) rest))"

text \<open>
  \<open>add_input\<close> (lines 754--779). The table is the list of its columns in
  \<open>itercolumns\<close> order; \<open>u\<close> is the value \<open>random.random()\<close> returns, a number in
  \<open>[0, 1)\<close>, drawn once per call and only when a sample rate is configured.
\<close>

definition wrapper_add_input ::
  "('a, 'c) wrapper_generator \<Rightarrow> real \<Rightarrow> 'a wrapper_accumulator \<Rightarrow> 'c feature_column list
     \<Rightarrow> py_error + 'a wrapper_accumulator"
where
  "wrapper_add_input w u wrapper_accumulator input_table =
     (case sample_rate w of
        Some r \<Rightarrow>
          (if u \<le> r then Inr wrapper_accumulator
           else add_columns w wrapper_accumulator input_table)
      | None \<Rightarrow> add_columns w wrapper_accumulator input_table)"

text \<open>Folding a sequence of batches, each with its own draw, stopping at the first error.\<close>

fun wrapper_add_inputs ::
  "('a, 'c) wrapper_generator \<Rightarrow> 'a wrapper_accumulator \<Rightarrow> (real \<times> 'c feature_column list) list
     \<Rightarrow> py_error + 'a wrapper_accumulator"
where
  "wrapper_add_inputs w wrapper_accumulator [] = Inr wrapper_accumulator"
| "wrapper_add_inputs w wrapper_accumulator ((u, input_table) # rest) =
     (case wrapper_add_input w u wrapper_accumulator input_table of
        Inl e \<Rightarrow> Inl e
      | Inr acc' \<Rightarrow> wrapper_add_inputs w acc' rest)"

text \<open>
  A generator to run the wrapper on: it counts the values of the columns it is given
  (its accumulator is the running count).
\<close>

definition count_values_generator :: "(nat, 'v list) feature_generator" where
  "count_values_generator =
     \<lparr>fg_create_accumulator = 0,
      fg_add_input = (\<lambda>acc col. acc + length (column_data col))\<rparr>"

definition count_wrapper :: "(nat, 'v list) wrapper_generator" where
  "count_wrapper =
     \<lparr>feature_stats_generators = [count_values_generator],
      weight_feature = None,
      sample_rate = None\<rparr>"

section \<open>\_CombinerStatsGeneratorsCombineFn (stats\_impl.py)\<close>

text \<open>
  A \<open>CombinerStatsGenerator\<close> wrapped by the combine function: its four operations, as
  pure functions on an accumulator type \<open>'a\<close>, a table type \<open>'t\<close> and an output type
  \<open>'o\<close>.
\<close>

record ('a, 't, 'o) stats_generator =
  gen_create_accumulator :: 'a
  gen_add_input :: "'a \<Rightarrow> 't \<Rightarrow> 'a"
  gen_merge_accumulators :: "'a list \<Rightarrow> 'a"
  gen_extract_output :: "'a \<Rightarrow> 'o"

text \<open>
  What the combine function uses of the Arrow library: \<open>table.num_rows\<close> and
  \<open>merge.MergeTables\<close>, which concatenates a list of tables into one.
\<close>

record 't arrow_library =
  num_rows :: "'t \<Rightarrow> nat"
  MergeTables :: "'t list \<Rightarrow> 't"

text \<open>\<open>_CombinerStatsGeneratorsCombineFnAcc\<close> (lines 448--459).\<close>

record ('a, 't) combine_fn_acc =
  partial_accumulators :: "'a list"
  input_tables :: "'t list"
  curr_batch_size :: nat

text \<open>
  The fields \<open>__init__\<close> sets (lines 495--507); \<open>DEFAULT\<close> is
  \<open>constants.DEFAULT_DESIRED_INPUT_BATCH_SIZE\<close>.
\<close>

record ('a, 't, 'o) combine_fn =
  generators :: "('a, 't, 'o) stats_generator list"
  desired_batch_size :: int

definition combine_fn_init ::
  "int \<Rightarrow> ('a, 't, 'o) stats_generator list \<Rightarrow> int option \<Rightarrow> ('a, 't, 'o) combine_fn"
where
  "combine_fn_init DEFAULT gens desired =
     \<lparr>generators = gens,
      desired_batch_size =
        (case desired of
           None \<Rightarrow> DEFAULT
         | Some d \<Rightarrow> if d \<noteq> 0 \<and> d > 0 then d else DEFAULT)\<rparr>"

text \<open>
  \<open>_for_each_generator\<close> (lines 521--536) with one parallel list: \<open>zip\<close> stops at the
  shorter of the generator list and the argument list.
\<close>

definition for_each_generator ::
  "('a, 't, 'o) combine_fn \<Rightarrow> (('a, 't, 'o) stats_generator \<Rightarrow> 'x \<Rightarrow> 'y) \<Rightarrow> 'x list \<Rightarrow> 'y list"
where
  "for_each_generator cf func args = map (\<lambda>(gen, arg). func gen arg) (zip (generators cf) args)"

definition combine_create_accumulator :: "('a, 't, 'o) combine_fn \<Rightarrow> ('a, 't) combine_fn_acc" where
  "combine_create_accumulator cf =
     \<lparr>partial_accumulators = map gen_create_accumulator (generators cf),
      input_tables = [],
      curr_batch_size = 0\<rparr>"

text \<open>\<open>_maybe_do_batch\<close> (lines 543--568); the accumulator updated in place is returned.\<close>

definition maybe_do_batch ::
  "'t arrow_library \<Rightarrow> ('a, 't, 'o) combine_fn \<Rightarrow> ('a, 't) combine_fn_acc \<Rightarrow> bool
     \<Rightarrow> ('a, 't) combine_fn_acc"
where
  "maybe_do_batch lib cf accumulator force =
     (let batch_size = curr_batch_size accumulator in
      if (force \<and> batch_size > 0) \<or> int batch_size \<ge> desired_batch_size cf
      then
        let arrow_table =
              (if length (input_tables accumulator) = 1 then input_tables accumulator ! 0
               else MergeTables lib (input_tables accumulator))
        in accumulator
             \<lparr>partial_accumulators :=
                for_each_generator cf (\<lambda>gen gen_acc. gen_add_input gen gen_acc arrow_table)
                  (partial_accumulators accumulator),
              input_tables := [],
              curr_batch_size := 0\<rparr>
      else accumulator)"

text \<open>\<open>add_input\<close> (lines 570--577).\<close>

definition combine_add_input ::
  "'t arrow_library \<Rightarrow> ('a, 't, 'o) combine_fn \<Rightarrow> ('a, 't) combine_fn_acc \<Rightarrow> 't
     \<Rightarrow> ('a, 't) combine_fn_acc"
where
  "combine_add_input lib cf accumulator input_table =
     maybe_do_batch lib cf
       (accumulator
          \<lparr>input_tables := input_tables accumulator @ [input_table],
           curr_batch_size := curr_batch_size accumulator + num_rows lib input_table\<rparr>)
       False"

text \<open>\<open>compact\<close> (lines 616--622); the metrics counter is not modelled.\<close>

definition compact ::
  "'t arrow_library \<Rightarrow> ('a, 't, 'o) combine_fn \<Rightarrow> ('a, 't) combine_fn_acc \<Rightarrow> ('a, 't) combine_fn_acc"
where
  "compact lib cf accumulator = maybe_do_batch lib cf accumulator True"

text \<open>
  \<open>extract_output\<close> (lines 624--632). It updates the accumulator in place and returns the
  merged proto, so the model returns both. \<open>merge_protos\<close> stands for
  \<open>_merge_dataset_feature_stats_protos\<close>, of which only that its result is determined by
  the list of the generators' outputs is used.
\<close>

definition combine_extract_output ::
  "'t arrow_library \<Rightarrow> ('o list \<Rightarrow> 'p) \<Rightarrow> ('a, 't, 'o) combine_fn \<Rightarrow> ('a, 't) combine_fn_acc
     \<Rightarrow> ('a, 't) combine_fn_acc \<times> 'p"
where
  "combine_extract_output lib merge_protos cf accumulator =
     (let accumulator' = maybe_do_batch lib cf accumulator True
      in (accumulator',
          merge_protos
            (for_each_generator cf (\<lambda>gen acc. gen_extract_output gen acc)
               (partial_accumulators accumulator'))))"

text \<open>
  \<open>merge_accumulators\<close> (lines 579--613). \<open>zip_star ls\<close> is \<open>zip(*ls)\<close>: the tuples of
  the \<open>i\<close>-th elements, as long as every list has one. \<open>pool_step\<close> is lines
  600--602: the pending tables and the row count of an accumulator are added to the
  result, which may flush. \<open>merge_group\<close> is one round of the \<open>while\<close> loop, on the
  next at most \<open>_DEFAULT_DESIRED_MERGE_ACCUMULATOR_BATCH_SIZE = 100\<close> accumulators: each
  is pooled into the result, and then every generator merges its accumulator of the
  result with those of the group.
\<close>

definition zip_star :: "'a list list \<Rightarrow> 'a list list" where
  "zip_star ls =
     (if ls = [] then []
      else map (\<lambda>i. map (\<lambda>l. l ! i) ls) [0..<Min (set (map length ls))])"

definition pool_step ::
  "'t arrow_library \<Rightarrow> ('a, 't, 'o) combine_fn \<Rightarrow> ('a, 't) combine_fn_acc
     \<Rightarrow> ('a, 't) combine_fn_acc \<Rightarrow> ('a, 't) combine_fn_acc"
where
  "pool_step lib cf result acc =
     maybe_do_batch lib cf
       (result\<lparr>input_tables := input_tables result @ input_tables acc,
               curr_batch_size := curr_batch_size result + curr_batch_size acc\<rparr>)
       False"

definition merge_group ::
  "'t arrow_library \<Rightarrow> ('a, 't, 'o) combine_fn \<Rightarrow> ('a, 't) combine_fn_acc
     \<Rightarrow> ('a, 't) combine_fn_acc list \<Rightarrow> ('a, 't) combine_fn_acc"
where
  "merge_group lib cf result batched_accumulators =
     (let result1 = foldl (pool_step lib cf) result batched_accumulators;
          batched_accumulators_by_generator =
            zip_star (map partial_accumulators batched_accumulators)
      in result1
           \<lparr>partial_accumulators :=
              map (\<lambda>(gen, b, m). gen_merge_accumulators gen (b # m))
                (zip (generators cf)
                   (zip (partial_accumulators result1) batched_accumulators_by_generator))\<rparr>)"

function merge_groups ::
  "'t arrow_library \<Rightarrow> ('a, 't, 'o) combine_fn \<Rightarrow> ('a, 't) combine_fn_acc
     \<Rightarrow> ('a, 't) combine_fn_acc list \<Rightarrow> ('a, 't) combine_fn_acc"
where
  "merge_groups lib cf result accumulators =
     (if accumulators = [] then result
      else merge_groups lib cf (merge_group lib cf result (take 100 accumulators))
             (drop 100 accumulators))"
  by pat_completeness auto
termination
  by (relation "measure (\<lambda>(lib, cf, result, accumulators). length accumulators)") auto

definition combine_merge_accumulators ::
  "'t arrow_library \<Rightarrow> ('a, 't, 'o) combine_fn \<Rightarrow> ('a, 't) combine_fn_acc list
     \<Rightarrow> ('a, 't) combine_fn_acc"
where
  "combine_merge_accumulators lib cf accumulators =
     merge_groups lib cf (combine_create_accumulator cf) accumulators"

text \<open>
  A run of the combine function on one accumulator: the operations the execution engine
  applies to it, in order, and the tables it adds.
\<close>

datatype 't combine_op = AddInput 't | Compact | ExtractOutput

fun apply_combine_op ::
  "'t arrow_library \<Rightarrow> ('a, 't, 'o) combine_fn \<Rightarrow> ('a, 't) combine_fn_acc \<Rightarrow> 't combine_op
     \<Rightarrow> ('a, 't) combine_fn_acc"
where
  "apply_combine_op lib cf acc (AddInput t) = combine_add_input lib cf acc t"
| "apply_combine_op lib cf acc Compact = compact lib cf acc"
| "apply_combine_op lib cf acc ExtractOutput = fst (combine_extract_output lib id cf acc)"

definition run_combine_ops ::
  "'t arrow_library \<Rightarrow> ('a, 't, 'o) combine_fn \<Rightarrow> 't combine_op list \<Rightarrow> ('a, 't) combine_fn_acc"
where
  "run_combine_ops lib cf ops = foldl (apply_combine_op lib cf) (combine_create_accumulator cf) ops"

fun added_tables :: "'t combine_op list \<Rightarrow> 't list" where
  "added_tables [] = []"
| "added_tables (AddInput t # ops) = t # added_tables ops"
| "added_tables (_ # ops) = added_tables ops"

text \<open>
  The table a flush folds: the queue's only table, or \<open>MergeTables\<close> of the queue.
\<close>

definition combined_table :: "'t arrow_library \<Rightarrow> 't list \<Rightarrow> 't" where
  "combined_table lib tables = (if length tables = 1 then tables ! 0 else MergeTables lib tables)"

text \<open>
  Tables as lists of rows, to run the combine function on: the row count is the length
  and merging concatenates. The generator counts the rows it is given.
\<close>

definition row_list_library :: "'r list arrow_library" where
  "row_list_library = \<lparr>num_rows = length, MergeTables = concat\<rparr>"

definition count_rows_generator :: "(nat, 'r list, nat) stats_generator" where
  "count_rows_generator =
     \<lparr>gen_create_accumulator = 0,
      gen_add_input = (\<lambda>acc t. acc + length t),
      gen_merge_accumulators = sum_list,
      gen_extract_output = (\<lambda>acc. acc)\<rparr>"

text \<open>
  The accumulators the generators hold after the groups of tables \<open>groups\<close> have been
  flushed one after the other, each group as one combined table.
\<close>

definition folded_groups ::
  "'t arrow_library \<Rightarrow> ('a, 't, 'o) combine_fn \<Rightarrow> 't list list \<Rightarrow> 'a list" where
  "folded_groups lib cf groups =
     map (\<lambda>gen. foldl (\<lambda>a grp. gen_add_input gen a (combined_table lib grp))
                   (gen_create_accumulator gen) groups) (generators cf)"

text \<open>
  Two accumulators of a combine function with one row-counting generator and a desired
  batch size of 10: one after a table of no rows has been added to a fresh accumulator,
  one with a table of three rows pending.
\<close>

definition zero_row_cf :: "(nat, nat list, nat) combine_fn" where
  "zero_row_cf = combine_fn_init 1000 [count_rows_generator] (Some 10)"

definition zero_row_acc :: "(nat, nat list) combine_fn_acc" where
  "zero_row_acc =
     combine_add_input row_list_library zero_row_cf (combine_create_accumulator zero_row_cf) []"

definition pending_acc :: "(nat, nat list) combine_fn_acc" where
  "pending_acc = \<lparr>partial_accumulators = [0], input_tables = [[1, 2, 3]], curr_batch_size = 3\<rparr>"

section \<open>Top-k output assembly (top\_k\_uniques\_stats\_generator.py)\<close>

text \<open>
  The values top-k statistics are computed over: bytes, text, and the integers of
  categorical features. A string of the model is a list of 8-bit characters, so it stands
  for Python's \<open>bytes\<close> exactly and for text as far as its code points fit a byte. A
  count is a Python number, an \<open>int\<close> for unweighted counts and a \<open>float\<close> for weighted
  ones; both are reals here.
\<close>

datatype feature_value = BytesValue string | TextValue string | IntValue int

text \<open>\<open>FeatureValueCount = namedtuple('FeatureValueCount', ['feature_value', 'count'])\<close>.\<close>

type_synonym feature_value_count = "feature_value \<times> real"

text \<open>
  Python's order on the values, as a key in a linear order: bytes and text compare
  lexicographically, integers numerically. The values of one column share a type, so how
  the key orders values of different types is never exercised.
\<close>

fun value_key :: "feature_value \<Rightarrow> nat \<times> string \<times> int" where
  "value_key (BytesValue b) = (0, b, 0)"
| "value_key (TextValue s) = (1, s, 0)"
| "value_key (IntValue n) = (2, [], n)"

text \<open>
  \<open>top_k_value_count_list.sort(key=lambda counts: (counts[1], counts[0]), reverse=True)\<close>
  (lines 106--108). Python's sort is stable, and with \<open>reverse=True\<close> it still keeps
  the original order of elements with equal keys: it sorts the reversed list and reverses
  the result.
\<close>

definition sort_value_counts :: "feature_value_count list \<Rightarrow> feature_value_count list" where
  "sort_value_counts top_k_value_count_list =
     rev (sort_key (\<lambda>counts. (snd counts, value_key (fst counts))) (rev top_k_value_count_list))"

definition INVALID_STRING :: string where
  "INVALID_STRING = ''__BYTES_VALUE__''"

text \<open>\<open>str(value)\<close> for an integer: its decimal digits, with a minus sign when negative.\<close>

fun str_nat :: "nat \<Rightarrow> string" where
  "str_nat n = (if n < 10 then [char_of (48 + n)] else str_nat (n div 10) @ [char_of (48 + n mod 10)])"

definition str_int :: "int \<Rightarrow> string" where
  "str_int n = (if n < 0 then CHR ''-'' # str_nat (nat (- n)) else str_nat (nat n))"

text \<open>The parts of the \<open>FeatureNameStatistics\<close> proto the assembly writes.\<close>

datatype feature_type = Type_INT | Type_FLOAT | Type_STRING | Type_BYTES | Type_STRUCT

record freq_and_value =
  fv_value :: string
  fv_frequency :: real

record bucket =
  low_rank :: nat
  high_rank :: nat
  sample_count :: real
  label :: string

record weighted_string_statistics =
  w_top_values :: "freq_and_value list"
  w_rank_histogram :: "bucket list"

record string_statistics =
  unique :: "nat option"
  top_values :: "freq_and_value list"
  rank_histogram :: "bucket list"
  weighted_string_stats :: "weighted_string_statistics option"

record feature_name_statistics =
  fs_path :: feature_path
  fs_type :: feature_type
  string_stats :: string_statistics

text \<open>
  A record of \<open>logging.warning\<close>: the feature whose bytes value could not be decoded. (The
  message is formatted with the value after \<open>maybe_get_utf8\<close> replaced it by \<open>None\<close>.)
\<close>

datatype log_record = UndecodableBytesWarning feature_path

text \<open>What the loop of lines 122--146 has written so far.\<close>

record topk_output =
  out_top_values :: "freq_and_value list"
  out_rank_histogram :: "bucket list"
  out_log :: "log_record list"

text \<open>
  The loop of lines 122--146 from index \<open>i\<close> on, over the rest of the sorted list.
  \<open>maybe_get_utf8\<close> is \<open>stats_util.maybe_get_utf8\<close>, which returns the decoded text or
  \<open>None\<close>; it is a parameter of the model.
\<close>

fun topk_loop ::
  "(string \<Rightarrow> string option) \<Rightarrow> feature_path \<Rightarrow> int \<Rightarrow> real \<Rightarrow> int \<Rightarrow> nat
     \<Rightarrow> feature_value_count list \<Rightarrow> topk_output \<Rightarrow> topk_output"
where
  "topk_loop maybe_get_utf8 feature_path num_top_values frequency_threshold
     num_rank_histogram_buckets i [] out = out"
| "topk_loop maybe_get_utf8 feature_path num_top_values frequency_threshold
     num_rank_histogram_buckets i ((val, cnt) # rest) out =
     (if cnt < frequency_threshold then out
      else
        let (value1, warnings) =
              (case val of
                 BytesValue b \<Rightarrow>
                   (case maybe_get_utf8 b of
                      None \<Rightarrow> (INVALID_STRING, [UndecodableBytesWarning feature_path])
                    | Some s \<Rightarrow> (s, []))
               | TextValue s \<Rightarrow> (s, [])
               | IntValue n \<Rightarrow> (str_int n, []));
            out1 = (if int i < num_top_values
                    then out\<lparr>out_top_values := out_top_values out @
                           [\<lparr>fv_value = value1, fv_frequency = cnt\<rparr>]\<rparr>
                    else out);
            out2 = (if int i < num_rank_histogram_buckets
                    then out1\<lparr>out_rank_histogram := out_rank_histogram out1 @
                           [\<lparr>low_rank = i, high_rank = i, sample_count = cnt, label = value1\<rparr>]\<rparr>
                    else out1)
        in topk_loop maybe_get_utf8 feature_path num_top_values frequency_threshold
             num_rank_histogram_buckets (Suc i) rest
             (out2\<lparr>out_log := out_log out2 @ warnings\<rparr>))"

text \<open>
  \<open>make_feature_stats_proto_with_topk_stats\<close> (lines 80--147): the proto it returns and
  the warnings it logs.
\<close>

definition make_feature_stats_proto_with_topk_stats ::
  "(string \<Rightarrow> string option) \<Rightarrow> feature_path \<Rightarrow> feature_value_count list \<Rightarrow> bool \<Rightarrow> bool
     \<Rightarrow> int \<Rightarrow> real \<Rightarrow> int \<Rightarrow> feature_name_statistics \<times> log_record list"
where
  "make_feature_stats_proto_with_topk_stats maybe_get_utf8 feature_path top_k_value_count_list
     is_categorical is_weighted_stats num_top_values frequency_threshold
     num_rank_histogram_buckets =
     (let sorted_list = sort_value_counts top_k_value_count_list;
          out = topk_loop maybe_get_utf8 feature_path num_top_values frequency_threshold
                  num_rank_histogram_buckets 0 sorted_list
                  \<lparr>out_top_values = [], out_rank_histogram = [], out_log = []\<rparr>;
          empty_stats = \<lparr>unique = None, top_values = [], rank_histogram = [],
                         weighted_string_stats = None\<rparr>
      in (\<lparr>fs_path = feature_path,
           fs_type = (if is_categorical then Type_INT else Type_STRING),
           string_stats =
             (if is_weighted_stats
              then (if out_top_values out = [] \<and> out_rank_histogram out = [] then empty_stats
                    else empty_stats\<lparr>weighted_string_stats :=
                           Some \<lparr>w_top_values = out_top_values out,
                                 w_rank_histogram = out_rank_histogram out\<rparr>\<rparr>)
              else empty_stats\<lparr>top_values := out_top_values out,
                               rank_histogram := out_rank_histogram out\<rparr>)\<rparr>,
          out_log out))"

section \<open>\_make\_feature\_stats\_proto (top\_k\_uniques\_combiner\_stats\_generator.py)\<close>

text \<open>
  \<open>_make_feature_stats_proto\<close> (lines 41--72). \<open>CopyFrom\<close> of the weighted string stats
  makes the field present in the result also when the message copied is empty.
\<close>

definition make_feature_stats_proto ::
  "(string \<Rightarrow> string option) \<Rightarrow> feature_path \<Rightarrow> feature_value_count list
     \<Rightarrow> feature_value_count list option \<Rightarrow> bool \<Rightarrow> int \<Rightarrow> real \<Rightarrow> real \<Rightarrow> int
     \<Rightarrow> feature_name_statistics"
where
  "make_feature_stats_proto maybe_get_utf8 feature_path value_count_list
     weighted_value_count_list is_categorical num_top_values frequency_threshold
     weighted_frequency_threshold num_rank_histogram_buckets =
     (let result = fst (make_feature_stats_proto_with_topk_stats maybe_get_utf8 feature_path
                     value_count_list is_categorical False num_top_values frequency_threshold
                     num_rank_histogram_buckets);
          result1 =
            (case weighted_value_count_list of
               None \<Rightarrow> result
             | Some weighted \<Rightarrow>
                 if weighted = [] then result
                 else
                   let weighted_result =
                         fst (make_feature_stats_proto_with_topk_stats maybe_get_utf8 feature_path
                                weighted is_categorical True num_top_values
                                weighted_frequency_threshold num_rank_histogram_buckets)
                   in result\<lparr>string_stats := (string_stats result)
                        \<lparr>weighted_string_stats :=
                           Some (case weighted_string_stats (string_stats weighted_result) of
                                   None \<Rightarrow> \<lparr>w_top_values = [], w_rank_histogram = []\<rparr>
                                 | Some w \<Rightarrow> w)\<rparr>\<rparr>)
      in result1\<lparr>string_stats := (string_stats result1)
           \<lparr>unique := Some (length value_count_list)\<rparr>\<rparr>)"

subsection \<open>Notions the properties of the assembly are stated with\<close>

text \<open>
  The label the loop writes for a value (lines 128--135), and the warnings it logs for it.
\<close>

definition value_label :: "(string \<Rightarrow> string option) \<Rightarrow> feature_value \<Rightarrow> string" where
  "value_label maybe_get_utf8 v =
     (case v of
        BytesValue b \<Rightarrow> (case maybe_get_utf8 b of None \<Rightarrow> INVALID_STRING | Some s \<Rightarrow> s)
      | TextValue s \<Rightarrow> s
      | IntValue n \<Rightarrow> str_int n)"

definition value_warnings ::
  "(string \<Rightarrow> string option) \<Rightarrow> feature_path \<Rightarrow> feature_value \<Rightarrow> log_record list" where
  "value_warnings maybe_get_utf8 feature_path v =
     (case v of
        BytesValue b \<Rightarrow>
          (case maybe_get_utf8 b of None \<Rightarrow> [UndecodableBytesWarning feature_path] | Some s \<Rightarrow> [])
      | _ \<Rightarrow> [])"

definition top_value_of :: "(string \<Rightarrow> string option) \<Rightarrow> feature_value_count \<Rightarrow> freq_and_value" where
  "top_value_of maybe_get_utf8 vc =
     \<lparr>fv_value = value_label maybe_get_utf8 (fst vc), fv_frequency = snd vc\<rparr>"

definition bucket_of :: "(string \<Rightarrow> string option) \<Rightarrow> nat \<times> feature_value_count \<Rightarrow> bucket" where
  "bucket_of maybe_get_utf8 ivc =
     \<lparr>low_rank = fst ivc, high_rank = fst ivc, sample_count = snd (snd ivc),
      label = value_label maybe_get_utf8 (fst (snd ivc))\<rparr>"

text \<open>The entries of the sorted list whose count is not below the threshold.\<close>

definition frequent_entries :: "real \<Rightarrow> feature_value_count list \<Rightarrow> feature_value_count list" where
  "frequent_entries frequency_threshold value_count_list =
     filter (\<lambda>vc. \<not> snd vc < frequency_threshold) (sort_value_counts value_count_list)"

text \<open>
  A decoder to run the assembly on: it accepts the byte strings that are ASCII and returns
  them as text, and rejects every other byte string.
\<close>

definition ascii_only :: "string \<Rightarrow> string option" where
  "ascii_only b = (if list_all (\<lambda>c. (of_char c :: nat) < 128) b then Some b else None)"

section \<open>Example-count reconciliation (stats\_impl.py)\<close>

text \<open>
  The parts of the statistics protos the reconciliation reads and writes. A custom
  statistic carries a number (a double); the counts of the common statistics are unsigned
  integers and the weighted ones doubles. Of the \<open>stats\<close> oneof of a feature only the
  common statistics are kept: the reconciliation touches nothing else.
\<close>

record custom_statistic =
  cs_name :: string
  cs_num :: real

record weighted_common_statistics =
  wcs_num_non_missing :: real
  wcs_num_missing :: real

record common_statistics =
  num_non_missing :: nat
  num_missing :: nat
  weighted_common_stats :: weighted_common_statistics

datatype stats_oneof =
    NumStats common_statistics
  | StringStats common_statistics
  | BytesStats common_statistics
  | StructStats common_statistics
  | StatsNotSet

record feature_statistics =
  f_path :: feature_path
  custom_stats :: "custom_statistic list"
  stats :: stats_oneof

record dataset_feature_statistics =
  dataset_num_examples :: nat
  features :: "feature_statistics list"

definition DUMMY_FEATURE_PATH :: feature_path where
  "DUMMY_FEATURE_PATH = [''__TFDV_INTERNAL_FEATURE__'']"

definition NUM_EXAMPLES_KEY :: string where
  "NUM_EXAMPLES_KEY = ''__NUM_EXAMPLES__''"

definition WEIGHTED_NUM_EXAMPLES_KEY :: string where
  "WEIGHTED_NUM_EXAMPLES_KEY = ''__WEIGHTED_NUM_EXAMPLES__''"

text \<open>
  Modelled from the spec: \<open>stats_util.get_feature_stats\<close> and
  \<open>stats_util.get_custom_stats\<close> are not among the sources. The synthetic entry is
  "extracted": the first feature with the given path is returned, and the number of its
  first custom statistic with the given name; a \<open>ValueError\<close> is raised when there is
  none.
\<close>

fun get_feature_stats ::
  "feature_statistics list \<Rightarrow> feature_path \<Rightarrow> py_error + feature_statistics" where
  "get_feature_stats [] feature_path = Inl ValueError"
| "get_feature_stats (feature_stats # rest) feature_path =
     (if feature_path = f_path feature_stats then Inr feature_stats
      else get_feature_stats rest feature_path)"

fun get_custom_stats_list :: "custom_statistic list \<Rightarrow> string \<Rightarrow> py_error + real" where
  "get_custom_stats_list [] custom_stats_name = Inl ValueError"
| "get_custom_stats_list (c # rest) custom_stats_name =
     (if cs_name c = custom_stats_name then Inr (cs_num c)
      else get_custom_stats_list rest custom_stats_name)"

definition get_custom_stats :: "feature_statistics \<Rightarrow> string \<Rightarrow> py_error + real" where
  "get_custom_stats feature_stats custom_stats_name =
     get_custom_stats_list (custom_stats feature_stats) custom_stats_name"

text \<open>Python's \<open>int(x)\<close> of a float: truncation towards zero.\<close>

definition py_int :: "real \<Rightarrow> int" where
  "py_int x = (if 0 \<le> x then \<lfloor>x\<rfloor> else \<lceil>x\<rceil>)"

text \<open>
  Lines 355--359: the common statistics of a feature are those of its \<open>num_stats\<close> when
  the oneof holds \<open>num_stats\<close>, and those of its \<open>string_stats\<close> otherwise, which are the
  default (all zero) when the oneof holds something else.
\<close>

definition default_common_stats :: common_statistics where
  "default_common_stats =
     \<lparr>num_non_missing = 0, num_missing = 0,
      weighted_common_stats = \<lparr>wcs_num_non_missing = 0, wcs_num_missing = 0\<rparr>\<rparr>"

definition common_stats_of :: "feature_statistics \<Rightarrow> common_statistics" where
  "common_stats_of feature_stats =
     (case stats feature_stats of
        NumStats c \<Rightarrow> c
      | StringStats c \<Rightarrow> c
      | _ \<Rightarrow> default_common_stats)"

text \<open>
  Lines 365--370, the writes of one iteration of the loop. Writing into
  \<open>string_stats.common_stats\<close> makes \<open>string_stats\<close> the member of the oneof.
\<close>

definition set_missing_counts :: "real \<Rightarrow> real \<Rightarrow> feature_statistics \<Rightarrow> feature_statistics" where
  "set_missing_counts num_examples weighted_num_examples feature_stats =
     (let common_stats = common_stats_of feature_stats;
          c1 = common_stats
                 \<lparr>num_missing := nat (py_int (num_examples - real (num_non_missing common_stats)))\<rparr>;
          c2 = (if weighted_num_examples \<noteq> 0
                then c1\<lparr>weighted_common_stats := (weighted_common_stats c1)
                       \<lparr>wcs_num_missing :=
                          weighted_num_examples
                            - wcs_num_non_missing (weighted_common_stats c1)\<rparr>\<rparr>
                else c1)
      in feature_stats
           \<lparr>stats := (case stats feature_stats of NumStats _ \<Rightarrow> NumStats c2 | _ \<Rightarrow> StringStats c2)\<rparr>)"

text \<open>The loop of lines 354--370; the \<open>assert\<close> raises \<open>AssertionError\<close>.\<close>

fun update_missing_counts ::
  "real \<Rightarrow> real \<Rightarrow> feature_statistics list \<Rightarrow> py_error + feature_statistics list" where
  "update_missing_counts num_examples weighted_num_examples [] = Inr []"
| "update_missing_counts num_examples weighted_num_examples (feature_stats # rest) =
     (if \<not> num_examples \<ge> real (num_non_missing (common_stats_of feature_stats))
      then Inl AssertionError
      else
        case update_missing_counts num_examples weighted_num_examples rest of
          Inl e \<Rightarrow> Inl e
        | Inr rest' \<Rightarrow>
            Inr (set_missing_counts num_examples weighted_num_examples feature_stats # rest'))"

text \<open>
  \<open>_update_example_and_missing_count\<close> (lines 346--371). The proto is updated in place;
  the model returns it, or the error raised. \<open>features.remove\<close> removes the first entry
  equal to the dummy feature. Storing a negative number in the unsigned field
  \<open>num_examples\<close> raises \<open>ValueError\<close>.
\<close>

definition update_example_and_missing_count ::
  "dataset_feature_statistics \<Rightarrow> py_error + dataset_feature_statistics" where
  "update_example_and_missing_count stats_proto =
     (case get_feature_stats (features stats_proto) DUMMY_FEATURE_PATH of
        Inl e \<Rightarrow> Inl e
      | Inr dummy_feature \<Rightarrow>
     (case get_custom_stats dummy_feature NUM_EXAMPLES_KEY of
        Inl e \<Rightarrow> Inl e
      | Inr num_examples \<Rightarrow>
     (case get_custom_stats dummy_feature WEIGHTED_NUM_EXAMPLES_KEY of
        Inl e \<Rightarrow> Inl e
      | Inr weighted_num_examples \<Rightarrow>
     (case update_missing_counts num_examples weighted_num_examples
             (remove1 dummy_feature (features stats_proto)) of
        Inl e \<Rightarrow> Inl e
      | Inr features' \<Rightarrow>
          if py_int num_examples < 0 then Inl ValueError
          else Inr (stats_proto\<lparr>features := features',
                                dataset_num_examples := nat (py_int num_examples)\<rparr>)))))"

text \<open>
  The statistics of the reconciliation example: ten examples, recorded by the synthetic
  entry, and a feature \<open>F\<close> with seven non-missing values. In the second proto \<open>F\<close> has
  eleven.
\<close>

definition example_dummy_feature :: feature_statistics where
  "example_dummy_feature =
     \<lparr>f_path = DUMMY_FEATURE_PATH,
      custom_stats = [\<lparr>cs_name = NUM_EXAMPLES_KEY, cs_num = 10\<rparr>,
                      \<lparr>cs_name = WEIGHTED_NUM_EXAMPLES_KEY, cs_num = 0\<rparr>],
      stats = StatsNotSet\<rparr>"

definition example_feature :: "nat \<Rightarrow> feature_statistics" where
  "example_feature n =
     \<lparr>f_path = [''F''], custom_stats = [],
      stats = StringStats (default_common_stats\<lparr>num_non_missing := n\<rparr>)\<rparr>"

definition example_stats :: "nat \<Rightarrow> dataset_feature_statistics" where
  "example_stats n = \<lparr>dataset_num_examples = 0, features = [example_feature n, example_dummy_feature]\<rparr>"

section \<open>TopKUniquesCombinerStatsGenerator (top\_k\_uniques\_combiner\_stats\_generator.py)\<close>

text \<open>
  The columns of an Arrow table as the combiner reads them: a name and the first chunk of
  the data, an array of lists; a row is null (\<open>None\<close>) or a list of values. A table is
  the list of its columns.
\<close>

datatype arrow_array =
    BinaryListArray "string list option list"
  | StringListArray "string list option list"
  | Int64ListArray "int list option list"
  | FloatListArray "real list option list"

record table_column =
  tc_name :: feature_name
  tc_chunk :: arrow_array

type_synonym arrow_table = "table_column list"

text \<open>
  Modelled from the spec: the functions of \<open>arrow_util\<close> and \<open>stats_util\<close> the combiner
  calls are not among the sources. \<open>FlattenListArray\<close> "flattens list-valued entries",
  dropping null rows; \<open>GetFlattenedArrayParentIndices\<close> is the "repeated-value-to-weight
  index mapping", the row index of every flattened value; \<open>ValueCounts\<close> "counts
  occurrences of each distinct value", here in the order of first occurrence;
  \<open>get_feature_type_from_arrow_type\<close> gives \<open>STRING\<close> for binary and string lists,
  \<open>INT\<close> for integer lists and \<open>FLOAT\<close> for float lists.
\<close>

definition flatten_rows :: "'v list option list \<Rightarrow> 'v list" where
  "flatten_rows rows = concat (map (\<lambda>row. case row of None \<Rightarrow> [] | Some xs \<Rightarrow> xs) rows)"

definition parent_indices_rows :: "'v list option list \<Rightarrow> nat list" where
  "parent_indices_rows rows =
     concat (map (\<lambda>(i, row). case row of None \<Rightarrow> [] | Some xs \<Rightarrow> replicate (length xs) i)
               (enumerate 0 rows))"

fun array_length :: "arrow_array \<Rightarrow> nat" where
  "array_length (BinaryListArray rows) = length rows"
| "array_length (StringListArray rows) = length rows"
| "array_length (Int64ListArray rows) = length rows"
| "array_length (FloatListArray rows) = length rows"

fun GetFlattenedArrayParentIndices :: "arrow_array \<Rightarrow> nat list" where
  "GetFlattenedArrayParentIndices (BinaryListArray rows) = parent_indices_rows rows"
| "GetFlattenedArrayParentIndices (StringListArray rows) = parent_indices_rows rows"
| "GetFlattenedArrayParentIndices (Int64ListArray rows) = parent_indices_rows rows"
| "GetFlattenedArrayParentIndices (FloatListArray rows) = parent_indices_rows rows"

fun get_feature_type_from_arrow_type :: "arrow_array \<Rightarrow> feature_type" where
  "get_feature_type_from_arrow_type (BinaryListArray rows) = Type_STRING"
| "get_feature_type_from_arrow_type (StringListArray rows) = Type_STRING"
| "get_feature_type_from_arrow_type (Int64ListArray rows) = Type_INT"
| "get_feature_type_from_arrow_type (FloatListArray rows) = Type_FLOAT"

text \<open>
  The flattened values of a column as Python objects. Top-k statistics are computed for
  string columns and for the integer columns the schema marks as categorical
  (\<open>get_categorical_numeric_features\<close> returns integer features only), so the values of
  a float column are not needed: the model has none, and \<open>add_input\<close> below passes such a
  column by.
\<close>

fun flattened_feature_values :: "arrow_array \<Rightarrow> feature_value list option" where
  "flattened_feature_values (BinaryListArray rows) = Some (map BytesValue (flatten_rows rows))"
| "flattened_feature_values (StringListArray rows) = Some (map TextValue (flatten_rows rows))"
| "flattened_feature_values (Int64ListArray rows) = Some (map IntValue (flatten_rows rows))"
| "flattened_feature_values (FloatListArray rows) = None"

text \<open>
  The flattened weights as numbers; a weight that is not a number (\<open>None\<close>) raises
  \<open>TypeError\<close> when it is added to a count.
\<close>

fun flattened_weights_of :: "arrow_array \<Rightarrow> real option list" where
  "flattened_weights_of (FloatListArray rows) = map Some (flatten_rows rows)"
| "flattened_weights_of (Int64ListArray rows) = map (\<lambda>n. Some (of_int n)) (flatten_rows rows)"
| "flattened_weights_of (BinaryListArray rows) = map (\<lambda>_. None) (flatten_rows rows)"
| "flattened_weights_of (StringListArray rows) = map (\<lambda>_. None) (flatten_rows rows)"

text \<open>
  A \<open>collections.Counter\<close> or \<open>_WeightedCounter\<close> (lines 99--114): a dictionary from
  values to counts, in insertion order. \<open>counter_add\<close> is \<open>self[k] += v\<close>, where a
  missing key counts as zero; \<open>counter_update\<close> is \<open>update(other)\<close>.
\<close>

type_synonym counter = "(feature_value \<times> real) list"

definition counter_add :: "feature_value \<Rightarrow> real \<Rightarrow> counter \<Rightarrow> counter" where
  "counter_add k v c = AList.update k ((case map_of c k of None \<Rightarrow> 0 | Some x \<Rightarrow> x) + v) c"

definition counter_update :: "counter \<Rightarrow> counter \<Rightarrow> counter" where
  "counter_update self other = fold (\<lambda>(k, v) c. counter_add k v c) other self"

definition ValueCounts :: "feature_value list \<Rightarrow> counter" where
  "ValueCounts flattened_values = fold (\<lambda>v c. counter_add v 1 c) flattened_values []"

text \<open>\<open>weighted_update\<close> (lines 105--110): \<open>zip\<close> stops at the shorter list.\<close>

fun weighted_update :: "counter \<Rightarrow> feature_value list \<Rightarrow> real option list \<Rightarrow> py_error + counter" where
  "weighted_update self (v # values) (w # weights) =
     (case w of
        None \<Rightarrow> Inl TypeError
      | Some x \<Rightarrow> weighted_update (counter_add v x self) values weights)"
| "weighted_update self values weights = Inr self"

text \<open>
  \<open>flattened_weights[indices]\<close>: numpy raises \<open>IndexError\<close> for an index out of range.
\<close>

definition take_indices :: "'w list \<Rightarrow> nat list \<Rightarrow> py_error + 'w list" where
  "take_indices ws indices =
     (if list_all (\<lambda>i. i < length ws) indices then Inr (map (\<lambda>i. ws ! i) indices)
      else Inl IndexError)"

text \<open>\<open>_ValueCounts\<close> (lines 37--38) and the accumulator, a dictionary from feature paths.\<close>

record value_counts =
  unweighted_counts :: counter
  weighted_counts :: counter

type_synonym topk_accumulator = "(feature_path \<times> value_counts) list"

text \<open>The fields \<open>__init__\<close> sets (lines 125--158).\<close>

record topk_generator =
  categorical_features :: "feature_path list"
  topk_weight_feature :: "feature_name option"
  num_top_values :: int
  frequency_threshold :: real
  weighted_frequency_threshold :: real
  num_rank_histogram_buckets :: int

definition topk_create_accumulator :: topk_accumulator where
  "topk_create_accumulator = []"

text \<open>
  The loop over the columns in \<open>add_input\<close> (lines 183--224). \<open>weights\<close> is the
  flattened weight array, or \<open>None\<close> when \<open>weight_array\<close> is empty or there is no weight
  feature.
\<close>

fun topk_add_columns ::
  "topk_generator \<Rightarrow> real option list option \<Rightarrow> topk_accumulator \<Rightarrow> table_column list
     \<Rightarrow> py_error + topk_accumulator"
where
  "topk_add_columns g weights accumulator [] = Inr accumulator"
| "topk_add_columns g weights accumulator (column # rest) =
     (if Some (tc_name column) = topk_weight_feature g
      then topk_add_columns g weights accumulator rest
      else
        let feature_path = [tc_name column];
            feature_type = get_feature_type_from_arrow_type (tc_chunk column)
        in
        if \<not> (feature_path \<in> set (categorical_features g) \<or> feature_type = Type_STRING)
        then topk_add_columns g weights accumulator rest
        else
          case flattened_feature_values (tc_chunk column) of
            None \<Rightarrow> topk_add_columns g weights accumulator rest
          | Some flattened_values \<Rightarrow>
              let unweighted = ValueCounts flattened_values;
                  weighted_result =
                    (case weights of
                       None \<Rightarrow> Inr []
                     | Some flattened_weights \<Rightarrow>
                         (case take_indices flattened_weights
                                 (GetFlattenedArrayParentIndices (tc_chunk column)) of
                            Inl e \<Rightarrow> Inl e
                          | Inr ws \<Rightarrow> weighted_update [] flattened_values ws))
              in
              case weighted_result of
                Inl e \<Rightarrow> Inl e
              | Inr weighted \<Rightarrow>
                  topk_add_columns g weights
                    (case map_of accumulator feature_path of
                       None \<Rightarrow>
                         accumulator @
                           [(feature_path,
                             \<lparr>unweighted_counts = unweighted, weighted_counts = weighted\<rparr>)]
                     | Some vc \<Rightarrow>
                         AList.update feature_path
                           \<lparr>unweighted_counts = counter_update (unweighted_counts vc) unweighted,
                            weighted_counts = counter_update (weighted_counts vc) weighted\<rparr>
                           accumulator)
                    rest)"

text \<open>
  \<open>add_input\<close> (lines 175--225). \<open>input_table.column(name)\<close> raises \<open>KeyError\<close> when the
  table has no such column; a weight feature that is the empty string, a weight column
  of no rows and an empty weight array all count as false.
\<close>

definition topk_add_input ::
  "topk_generator \<Rightarrow> topk_accumulator \<Rightarrow> arrow_table \<Rightarrow> py_error + topk_accumulator"
where
  "topk_add_input g accumulator input_table =
     (case topk_weight_feature g of
        None \<Rightarrow> topk_add_columns g None accumulator input_table
      | Some weight_name \<Rightarrow>
          if weight_name = [] then topk_add_columns g None accumulator input_table
          else
            (case find (\<lambda>c. tc_name c = weight_name) input_table of
               None \<Rightarrow> Inl KeyError
             | Some weight_column \<Rightarrow>
                 if array_length (tc_chunk weight_column) = 0
                 then topk_add_columns g None accumulator input_table
                 else topk_add_columns g (Some (flattened_weights_of (tc_chunk weight_column)))
                        accumulator input_table))"

text \<open>\<open>merge_accumulators\<close> (lines 227--241): the inner loop, then the outer one.\<close>

fun topk_merge_into :: "topk_accumulator \<Rightarrow> topk_accumulator \<Rightarrow> topk_accumulator" where
  "topk_merge_into result [] = result"
| "topk_merge_into result ((feature_path, vc) # rest) =
     topk_merge_into
       (case map_of result feature_path of
          None \<Rightarrow> result @ [(feature_path, vc)]
        | Some r \<Rightarrow>
            AList.update feature_path
              \<lparr>unweighted_counts = counter_update (unweighted_counts r) (unweighted_counts vc),
               weighted_counts =
                 (if weighted_counts r \<noteq> []
                  then counter_update (weighted_counts r) (weighted_counts vc)
                  else weighted_counts r)\<rparr>
              result)
       rest"

definition topk_merge_accumulators :: "topk_accumulator list \<Rightarrow> topk_accumulator" where
  "topk_merge_accumulators accumulators = fold (\<lambda>accumulator result. topk_merge_into result accumulator) accumulators []"

text \<open>
  \<open>_make_dataset_feature_stats_proto_with_multiple_features\<close> (lines 75--96): the result
  is the list of its features. Looking a feature up in a non-empty dictionary of weighted
  counts that does not hold it raises \<open>KeyError\<close>.
\<close>

fun make_dataset_feature_stats_proto_with_multiple_features ::
  "(string \<Rightarrow> string option) \<Rightarrow> topk_generator
     \<Rightarrow> (feature_path \<times> feature_value_count list) list
     \<Rightarrow> (feature_path \<times> feature_value_count list) list
     \<Rightarrow> py_error + feature_name_statistics list"
where
  "make_dataset_feature_stats_proto_with_multiple_features maybe_get_utf8 g []
     weighted_feature_names_to_value_counts = Inr []"
| "make_dataset_feature_stats_proto_with_multiple_features maybe_get_utf8 g
     ((feature_path, value_count) # rest) weighted_feature_names_to_value_counts =
     (case (if weighted_feature_names_to_value_counts \<noteq> []
            then (case map_of weighted_feature_names_to_value_counts feature_path of
                    None \<Rightarrow> Inl KeyError
                  | Some w \<Rightarrow> Inr (Some w))
            else Inr None) of
        Inl e \<Rightarrow> Inl e
      | Inr weighted_value_count \<Rightarrow>
          (case make_dataset_feature_stats_proto_with_multiple_features maybe_get_utf8 g rest
                  weighted_feature_names_to_value_counts of
             Inl e \<Rightarrow> Inl e
           | Inr features' \<Rightarrow>
               Inr (make_feature_stats_proto maybe_get_utf8 feature_path value_count
                      weighted_value_count (feature_path \<in> set (categorical_features g))
                      (num_top_values g) (frequency_threshold g)
                      (weighted_frequency_threshold g) (num_rank_histogram_buckets g)
                    # features')))"

text \<open>\<open>extract_output\<close> (lines 243--267).\<close>

definition topk_extract_output ::
  "(string \<Rightarrow> string option) \<Rightarrow> topk_generator \<Rightarrow> topk_accumulator
     \<Rightarrow> py_error + feature_name_statistics list"
where
  "topk_extract_output maybe_get_utf8 g accumulator =
     make_dataset_feature_stats_proto_with_multiple_features maybe_get_utf8 g
       (map (\<lambda>(feature_path, vc). (feature_path, unweighted_counts vc))
          (filter (\<lambda>(feature_path, vc). unweighted_counts vc \<noteq> []) accumulator))
       (map (\<lambda>(feature_path, vc). (feature_path, weighted_counts vc))
          (filter (\<lambda>(feature_path, vc). weighted_counts vc \<noteq> []) accumulator))"

text \<open>
  A generator with the weight feature \<open>w\<close>; a batch of two rows, whose string feature
  \<open>f\<close> has no value in the first row and the value \<open>x\<close> in the second, with weights 2
  and 3; and the same batch as two batches of one row.
\<close>

definition weighted_topk_generator :: topk_generator where
  "weighted_topk_generator =
     \<lparr>categorical_features = [], topk_weight_feature = Some ''w'', num_top_values = 2,
      frequency_threshold = 1, weighted_frequency_threshold = 1,
      num_rank_histogram_buckets = 1000\<rparr>"

definition whole_batch :: arrow_table where
  "whole_batch =
     [\<lparr>tc_name = ''f'', tc_chunk = BinaryListArray [Some [], Some [''x'']]\<rparr>,
      \<lparr>tc_name = ''w'', tc_chunk = FloatListArray [Some [2], Some [3]]\<rparr>]"

definition first_sub_batch :: arrow_table where
  "first_sub_batch =
     [\<lparr>tc_name = ''f'', tc_chunk = BinaryListArray [Some []]\<rparr>,
      \<lparr>tc_name = ''w'', tc_chunk = FloatListArray [Some [2]]\<rparr>]"

definition second_sub_batch :: arrow_table where
  "second_sub_batch =
     [\<lparr>tc_name = ''f'', tc_chunk = BinaryListArray [Some [''x'']]\<rparr>,
      \<lparr>tc_name = ''w'', tc_chunk = FloatListArray [Some [3]]\<rparr>]"

text \<open>The accumulators the two sub-batches give when folded into fresh accumulators.\<close>

definition first_acc :: topk_accumulator where
  "first_acc = [([''f''], \<lparr>unweighted_counts = [], weighted_counts = []\<rparr>)]"

definition second_acc :: topk_accumulator where
  "second_acc =
     [([''f''], \<lparr>unweighted_counts = [(BytesValue ''x'', 1)],
                 weighted_counts = [(BytesValue ''x'', 3)]\<rparr>)]"

text \<open>
  Splitting a batch by rows: the rows of two tables with the same columns, one after the
  other. Folding the two parts into fresh accumulators, merging and extracting; and
  folding a whole batch into a fresh accumulator and extracting.
\<close>

fun append_arrays :: "arrow_array \<Rightarrow> arrow_array \<Rightarrow> arrow_array option" where
  "append_arrays (BinaryListArray a) (BinaryListArray b) = Some (BinaryListArray (a @ b))"
| "append_arrays (StringListArray a) (StringListArray b) = Some (StringListArray (a @ b))"
| "append_arrays (Int64ListArray a) (Int64ListArray b) = Some (Int64ListArray (a @ b))"
| "append_arrays (FloatListArray a) (FloatListArray b) = Some (FloatListArray (a @ b))"
| "append_arrays _ _ = None"

fun append_tables :: "arrow_table \<Rightarrow> arrow_table \<Rightarrow> arrow_table option" where
  "append_tables [] [] = Some []"
| "append_tables (c # cs) (d # ds) =
     (if tc_name c = tc_name d
      then (case (append_arrays (tc_chunk c) (tc_chunk d), append_tables cs ds) of
              (Some a, Some rest) \<Rightarrow> Some (\<lparr>tc_name = tc_name c, tc_chunk = a\<rparr> # rest)
            | _ \<Rightarrow> None)
      else None)"
| "append_tables _ _ = None"

definition fold_split_and_merge ::
  "(string \<Rightarrow> string option) \<Rightarrow> topk_generator \<Rightarrow> arrow_table \<Rightarrow> arrow_table
     \<Rightarrow> py_error + feature_name_statistics list"
where
  "fold_split_and_merge maybe_get_utf8 g part1 part2 =
     (case topk_add_input g topk_create_accumulator part1 of
        Inl e \<Rightarrow> Inl e
      | Inr acc1 \<Rightarrow>
          (case topk_add_input g topk_create_accumulator part2 of
             Inl e \<Rightarrow> Inl e
           | Inr acc2 \<Rightarrow>
               topk_extract_output maybe_get_utf8 g (topk_merge_accumulators [acc1, acc2])))"

definition fold_whole ::
  "(string \<Rightarrow> string option) \<Rightarrow> topk_generator \<Rightarrow> arrow_table
     \<Rightarrow> py_error + feature_name_statistics list"
where
  "fold_whole maybe_get_utf8 g batch =
     (case topk_add_input g topk_create_accumulator batch of
        Inl e \<Rightarrow> Inl e
      | Inr acc \<Rightarrow> topk_extract_output maybe_get_utf8 g acc)"

section \<open>Properties of the feature wrapper\<close>

text \<open>
  The inner loop overwrites the slots \<open>index, index + 1, ...\<close> with the fold of the column
  into a fresh accumulator of each generator: what the slots held before is not read.
\<close>

lemma fold_into_slots_closed:
  "i + length gens \<le> length slots \<Longrightarrow>
   fold_into_slots gens i col slots =
     Inr (take i slots @ map (\<lambda>g. fg_add_input g (fg_create_accumulator g) col) gens
            @ drop (i + length gens) slots)"
proof (induction gens arbitrary: i slots)
  case Nil
  then show ?case by simp
next
  case (Cons g gens)
  have "i < length slots" using Cons.prems by simp
  moreover have "Suc i + length gens \<le> length (slots[i := fg_add_input g (fg_create_accumulator g) col])"
    using Cons.prems by simp
  ultimately show ?case
    using Cons.IH[of "Suc i" "slots[i := fg_add_input g (fg_create_accumulator g) col]"]
    by (simp add: take_Suc_conv_app_nth upd_conv_take_nth_drop add.commute)
qed

lemma add_columns_sample_rate:
  "add_columns (w\<lparr>sample_rate := x\<rparr>) acc t = add_columns w acc t"
  by (induction t arbitrary: acc)
     (auto simp: perhaps_initialize_for_feature_path_def Let_def split: option.splits sum.splits)

text \<open>
  Claim C1 (statistics of a feature accumulate across batches in the slot of each wrapped
  generator). The code does not do this. With the counting generator and two batches that
  both hold the column \<open>f\<close>, of two and of three values, the slot of \<open>f\<close> after both
  batches is the count of the second batch alone, 3, where accumulation gives 5: line 777
  folds the column into \<open>generator.create_accumulator()\<close> instead of the slot.
\<close>

theorem wrapper_add_input_replaces_slot:
  "(case wrapper_add_inputs count_wrapper wrapper_create_accumulator
           [(0, [\<lparr>column_name = ''f'', column_data = [1, 2 :: int]\<rparr>]),
            (0, [\<lparr>column_name = ''f'', column_data = [3, 4, 5]\<rparr>])] of
      Inl e \<Rightarrow> None
    | Inr acc \<Rightarrow> acc [''f'']) = Some [3]"
  by (simp add: wrapper_add_input_def count_wrapper_def count_values_generator_def
      wrapper_create_accumulator_def perhaps_initialize_for_feature_path_def)

text \<open>
  Claim C10 (the sample rate is the probability of skipping a batch). With a sample rate
  \<open>r\<close> configured and \<open>u\<close> the number drawn for the call, \<open>add_input\<close> returns the
  accumulator unchanged when \<open>u \<le> r\<close> and otherwise folds every eligible column of the
  batch, exactly as a wrapper without a sample rate does: the decision is taken once for
  the batch. For \<open>0 \<le> r\<close> and a batch whose fold changes the accumulator, the draws in
  \<open>[0, 1)\<close> on which the batch is processed are those of the interval \<open>(r, 1)\<close>, of
  length \<open>1 - r\<close>.
\<close>

theorem wrapper_add_input_sampling:
  assumes "sample_rate w = Some r"
  shows "wrapper_add_input w u acc t = (if u \<le> r then Inr acc else add_columns w acc t)
    \<and> (\<not> u \<le> r \<longrightarrow>
          wrapper_add_input w u acc t = wrapper_add_input (w\<lparr>sample_rate := None\<rparr>) u' acc t)
    \<and> (0 \<le> r \<and> add_columns w acc t \<noteq> Inr acc \<longrightarrow>
          {x. 0 \<le> x \<and> x < 1 \<and> wrapper_add_input w x acc t = add_columns w acc t} = {r<..<1})"
proof -
  have a: "wrapper_add_input w u acc t = (if u \<le> r then Inr acc else add_columns w acc t)"
    using assms by (simp add: wrapper_add_input_def)
  have b: "\<not> u \<le> r \<longrightarrow>
      wrapper_add_input w u acc t = wrapper_add_input (w\<lparr>sample_rate := None\<rparr>) u' acc t"
    using assms by (simp add: wrapper_add_input_def add_columns_sample_rate)
  have c: "0 \<le> r \<and> add_columns w acc t \<noteq> Inr acc \<longrightarrow>
      {x. 0 \<le> x \<and> x < 1 \<and> wrapper_add_input w x acc t = add_columns w acc t} = {r<..<1}"
    using assms by (auto simp: wrapper_add_input_def)
  show ?thesis using a b c by blast
qed

theorem wrapper_add_input_sampling_witness:
  "wrapper_add_input (count_wrapper\<lparr>sample_rate := Some (1/4)\<rparr>) (1/8) Map.empty
      [\<lparr>column_name = ''f'', column_data = [1, 2 :: int]\<rparr>] = Inr Map.empty
   \<and> (case wrapper_add_input (count_wrapper\<lparr>sample_rate := Some (1/4)\<rparr>) (1/2) Map.empty
         [\<lparr>column_name = ''f'', column_data = [1, 2 :: int]\<rparr>] of
         Inl e \<Rightarrow> None | Inr a \<Rightarrow> a [''f'']) = Some [2]
   \<and> {x. 0 \<le> x \<and> x < 1 \<and>
          wrapper_add_input (count_wrapper\<lparr>sample_rate := Some (1/4)\<rparr>) x Map.empty
            [\<lparr>column_name = ''f'', column_data = [1, 2 :: int]\<rparr>]
          = add_columns (count_wrapper\<lparr>sample_rate := Some (1/4)\<rparr>) Map.empty
            [\<lparr>column_name = ''f'', column_data = [1, 2 :: int]\<rparr>]} = {1/4<..<1}"
proof -
  let ?w = "count_wrapper\<lparr>sample_rate := Some (1/4)\<rparr> :: (nat, int list) wrapper_generator"
  let ?t = "[\<lparr>column_name = ''f'', column_data = [1, 2 :: int]\<rparr>]"
  have r: "sample_rate ?w = Some (1/4)" by simp
  have ne: "add_columns ?w Map.empty ?t \<noteq> Inr Map.empty"
  proof
    assume "add_columns ?w Map.empty ?t = Inr Map.empty"
    then have "(case add_columns ?w Map.empty ?t of Inl e \<Rightarrow> None | Inr a \<Rightarrow> a [''f''])
               = (None :: nat list option)"
      by simp
    then show False
      by (simp add: count_wrapper_def count_values_generator_def
          perhaps_initialize_for_feature_path_def)
  qed
  show ?thesis
    using wrapper_add_input_sampling [OF r, of "1/8" Map.empty ?t 0]
      wrapper_add_input_sampling [OF r, of "1/2" Map.empty ?t 0] ne
    by (simp add: count_wrapper_def count_values_generator_def
        perhaps_initialize_for_feature_path_def)
qed

section \<open>Properties of the batching combine function\<close>

lemma map_zip_same: "map (\<lambda>(g, a). f g a) (zip gs (map h gs)) = map (\<lambda>g. f g (h g)) gs"
  by (induction gs) auto

lemma maybe_do_batch_cases:
  "maybe_do_batch lib cf acc force =
     (if (force \<and> 0 < curr_batch_size acc) \<or> desired_batch_size cf \<le> int (curr_batch_size acc)
      then acc\<lparr>partial_accumulators :=
                 map (\<lambda>(gen, a). gen_add_input gen a (combined_table lib (input_tables acc)))
                   (zip (generators cf) (partial_accumulators acc)),
               input_tables := [], curr_batch_size := 0\<rparr>
      else acc)"
  by (simp add: maybe_do_batch_def Let_def for_each_generator_def combined_table_def)

lemma maybe_do_batch_inv:
  assumes "concat groups @ input_tables acc = ts"
    and "partial_accumulators acc = folded_groups lib cf groups"
    and "curr_batch_size acc = sum_list (map (num_rows lib) (input_tables acc))"
  shows "\<exists>groups'. concat groups' @ input_tables (maybe_do_batch lib cf acc force) = ts
      \<and> partial_accumulators (maybe_do_batch lib cf acc force) = folded_groups lib cf groups'
      \<and> curr_batch_size (maybe_do_batch lib cf acc force)
          = sum_list (map (num_rows lib) (input_tables (maybe_do_batch lib cf acc force)))"
proof (cases "(force \<and> 0 < curr_batch_size acc) \<or> desired_batch_size cf \<le> int (curr_batch_size acc)")
  case True
  have "partial_accumulators (maybe_do_batch lib cf acc force)
        = folded_groups lib cf (groups @ [input_tables acc])"
    using True assms(2) by (simp add: maybe_do_batch_cases folded_groups_def map_zip_same)
  moreover have "concat (groups @ [input_tables acc]) @ input_tables (maybe_do_batch lib cf acc force) = ts"
    using True assms(1) by (simp add: maybe_do_batch_cases)
  moreover have "curr_batch_size (maybe_do_batch lib cf acc force)
          = sum_list (map (num_rows lib) (input_tables (maybe_do_batch lib cf acc force)))"
    using True by (simp add: maybe_do_batch_cases)
  ultimately show ?thesis by blast
next
  case False
  then have "maybe_do_batch lib cf acc force = acc" by (auto simp: maybe_do_batch_cases)
  then show ?thesis using assms by auto
qed

lemma apply_combine_op_inv:
  assumes "concat groups @ input_tables acc = ts"
    and "partial_accumulators acc = folded_groups lib cf groups"
    and "curr_batch_size acc = sum_list (map (num_rows lib) (input_tables acc))"
  shows "\<exists>groups'. concat groups' @ input_tables (apply_combine_op lib cf acc op) = ts @ added_tables [op]
      \<and> partial_accumulators (apply_combine_op lib cf acc op) = folded_groups lib cf groups'
      \<and> curr_batch_size (apply_combine_op lib cf acc op)
          = sum_list (map (num_rows lib) (input_tables (apply_combine_op lib cf acc op)))"
proof (cases op)
  case (AddInput t)
  let ?acc = "acc\<lparr>input_tables := input_tables acc @ [t],
           curr_batch_size := curr_batch_size acc + num_rows lib t\<rparr>"
  have "concat groups @ input_tables ?acc = ts @ [t]" using assms(1) by simp
  moreover have "partial_accumulators ?acc = folded_groups lib cf groups" using assms(2) by simp
  moreover have "curr_batch_size ?acc = sum_list (map (num_rows lib) (input_tables ?acc))"
    using assms(3) by simp
  ultimately show ?thesis
    using maybe_do_batch_inv[of groups ?acc "ts @ [t]" lib cf False] AddInput
    by (simp add: combine_add_input_def)
next
  case Compact
  then show ?thesis using maybe_do_batch_inv[OF assms, of True] by (simp add: compact_def)
next
  case ExtractOutput
  then show ?thesis using maybe_do_batch_inv[OF assms, of True]
    by (simp add: combine_extract_output_def Let_def)
qed

lemma added_tables_append: "added_tables (xs @ ys) = added_tables xs @ added_tables ys"
  by (induction xs rule: added_tables.induct) auto

lemma foldl_combine_ops_inv:
  assumes "concat groups @ input_tables acc = ts"
    and "partial_accumulators acc = folded_groups lib cf groups"
    and "curr_batch_size acc = sum_list (map (num_rows lib) (input_tables acc))"
  shows "\<exists>groups'. concat groups' @ input_tables (foldl (apply_combine_op lib cf) acc ops)
            = ts @ added_tables ops
      \<and> partial_accumulators (foldl (apply_combine_op lib cf) acc ops) = folded_groups lib cf groups'
      \<and> curr_batch_size (foldl (apply_combine_op lib cf) acc ops)
          = sum_list (map (num_rows lib) (input_tables (foldl (apply_combine_op lib cf) acc ops)))"
  using assms
proof (induction ops arbitrary: acc ts groups)
  case Nil
  then show ?case by auto
next
  case (Cons op ops)
  obtain g1 where g1: "concat g1 @ input_tables (apply_combine_op lib cf acc op) = ts @ added_tables [op]"
    "partial_accumulators (apply_combine_op lib cf acc op) = folded_groups lib cf g1"
    "curr_batch_size (apply_combine_op lib cf acc op)
          = sum_list (map (num_rows lib) (input_tables (apply_combine_op lib cf acc op)))"
    using apply_combine_op_inv[OF Cons.prems] by blast
  have "added_tables [op] @ added_tables ops = added_tables (op # ops)"
    using added_tables_append[of "[op]" ops] by simp
  then show ?case using Cons.IH[OF g1] by (simp add: append.assoc[symmetric] del: append.assoc)
qed

lemma combine_fn_never_loses_batches:
  "\<exists>groups.
      concat groups @ input_tables (run_combine_ops lib cf ops) = added_tables ops
    \<and> partial_accumulators (run_combine_ops lib cf ops) =
        map (\<lambda>gen. foldl (\<lambda>a grp. gen_add_input gen a (combined_table lib grp))
                   (gen_create_accumulator gen) groups) (generators cf)
    \<and> curr_batch_size (run_combine_ops lib cf ops)
        = sum_list (map (num_rows lib) (input_tables (run_combine_ops lib cf ops)))"
proof -
  let ?acc = "combine_create_accumulator cf"
  have "concat [] @ input_tables ?acc = []" by (simp add: combine_create_accumulator_def)
  moreover have "partial_accumulators ?acc = folded_groups lib cf []"
    by (simp add: combine_create_accumulator_def folded_groups_def)
  moreover have "curr_batch_size ?acc = sum_list (map (num_rows lib) (input_tables ?acc))"
    by (simp add: combine_create_accumulator_def)
  ultimately show ?thesis
    using foldl_combine_ops_inv[of "[]" ?acc "[]" lib cf ops]
    by (simp add: run_combine_ops_def folded_groups_def)
qed

text \<open>
  \<open>merge_accumulators\<close> pools the pending tables of the accumulators it merges: those it
  has not flushed are the queue of the result.
\<close>

lemma maybe_do_batch_queue:
  "\<exists>groups. concat groups @ input_tables (maybe_do_batch lib cf acc force) = input_tables acc"
proof (cases "(force \<and> 0 < curr_batch_size acc) \<or> desired_batch_size cf \<le> int (curr_batch_size acc)")
  case True
  then have "concat [input_tables acc] @ input_tables (maybe_do_batch lib cf acc force) = input_tables acc"
    by (simp add: maybe_do_batch_cases)
  then show ?thesis by blast
next
  case False
  then have "concat [] @ input_tables (maybe_do_batch lib cf acc force) = input_tables acc"
    by (auto simp: maybe_do_batch_cases)
  then show ?thesis by blast
qed

lemma maybe_do_batch_counter:
  "curr_batch_size acc = sum_list (map (num_rows lib) (input_tables acc)) \<Longrightarrow>
   curr_batch_size (maybe_do_batch lib cf acc force)
     = sum_list (map (num_rows lib) (input_tables (maybe_do_batch lib cf acc force)))"
  by (auto simp: maybe_do_batch_cases)

lemma pool_fold_queue:
  "\<exists>groups. concat groups @ input_tables (foldl (pool_step lib cf) r accs)
     = input_tables r @ concat (map input_tables accs)"
proof (induction accs arbitrary: r)
  case Nil
  have "concat [] @ input_tables r = input_tables r @ concat (map input_tables [])" by simp
  then show ?case by (metis foldl_Nil)
next
  case (Cons a accs)
  obtain g1 where g1: "concat g1 @ input_tables (pool_step lib cf r a)
      = input_tables r @ input_tables a"
    using maybe_do_batch_queue[of lib cf
        "r\<lparr>input_tables := input_tables r @ input_tables a,
           curr_batch_size := curr_batch_size r + curr_batch_size a\<rparr>" False]
    by (auto simp: pool_step_def)
  obtain g2 where g2: "concat g2 @ input_tables (foldl (pool_step lib cf) (pool_step lib cf r a) accs)
      = input_tables (pool_step lib cf r a) @ concat (map input_tables accs)"
    using Cons.IH by blast
  let ?X = "input_tables (foldl (pool_step lib cf) (pool_step lib cf r a) accs)"
  let ?C = "concat (map input_tables accs)"
  have "concat (g1 @ g2) @ ?X = concat g1 @ (concat g2 @ ?X)" by simp
  also have "\<dots> = concat g1 @ (input_tables (pool_step lib cf r a) @ ?C)"
    by (simp only: g2)
  also have "\<dots> = (concat g1 @ input_tables (pool_step lib cf r a)) @ ?C" by simp
  also have "\<dots> = (input_tables r @ input_tables a) @ ?C" by (simp only: g1)
  finally have "concat (g1 @ g2) @ input_tables (foldl (pool_step lib cf) r (a # accs))
      = input_tables r @ concat (map input_tables (a # accs))"
    by simp
  then show ?case by blast
qed

lemma pool_fold_counter:
  assumes "curr_batch_size r = sum_list (map (num_rows lib) (input_tables r))"
    and "\<forall>acc \<in> set accs. curr_batch_size acc = sum_list (map (num_rows lib) (input_tables acc))"
  shows "curr_batch_size (foldl (pool_step lib cf) r accs)
     = sum_list (map (num_rows lib) (input_tables (foldl (pool_step lib cf) r accs)))"
  using assms
proof (induction accs arbitrary: r)
  case Nil
  then show ?case by simp
next
  case (Cons a accs)
  have "curr_batch_size (pool_step lib cf r a)
        = sum_list (map (num_rows lib) (input_tables (pool_step lib cf r a)))"
    unfolding pool_step_def
    by (rule maybe_do_batch_counter) (use Cons.prems in simp)
  then show ?case using Cons.IH[of "pool_step lib cf r a"] Cons.prems by simp
qed

lemma merge_group_queue:
  "input_tables (merge_group lib cf r batch) = input_tables (foldl (pool_step lib cf) r batch)"
  "curr_batch_size (merge_group lib cf r batch) = curr_batch_size (foldl (pool_step lib cf) r batch)"
  by (simp_all add: merge_group_def Let_def)

lemma merge_groups_queue:
  "\<exists>groups. concat groups @ input_tables (merge_groups lib cf r accs)
     = input_tables r @ concat (map input_tables accs)"
proof (induction lib cf r accs rule: merge_groups.induct)
  case (1 lib cf r accs)
  show ?case
  proof (cases "accs = []")
    case True
    have "concat [] @ input_tables (merge_groups lib cf r accs)
          = input_tables r @ concat (map input_tables accs)"
      using True by simp
    then show ?thesis by blast
  next
    case False
    let ?r1 = "merge_group lib cf r (take 100 accs)"
    obtain g1 where g1: "concat g1 @ input_tables ?r1
        = input_tables r @ concat (map input_tables (take 100 accs))"
      using pool_fold_queue[of lib cf r "take 100 accs"] by (auto simp: merge_group_queue)
    obtain g2 where g2: "concat g2 @ input_tables (merge_groups lib cf ?r1 (drop 100 accs))
        = input_tables ?r1 @ concat (map input_tables (drop 100 accs))"
      using "1.IH"[OF False] by blast
    let ?X = "input_tables (merge_groups lib cf ?r1 (drop 100 accs))"
    let ?C = "concat (map input_tables (drop 100 accs))"
    have m: "merge_groups lib cf r accs = merge_groups lib cf ?r1 (drop 100 accs)"
      using False by (subst merge_groups.simps) simp
    have "concat (g1 @ g2) @ ?X = concat g1 @ (concat g2 @ ?X)" by simp
    also have "\<dots> = concat g1 @ (input_tables ?r1 @ ?C)" by (simp only: g2)
    also have "\<dots> = (concat g1 @ input_tables ?r1) @ ?C" by simp
    also have "\<dots> = (input_tables r @ concat (map input_tables (take 100 accs))) @ ?C"
      by (simp only: g1)
    also have "\<dots> = input_tables r @ concat (map input_tables accs)"
      by (metis append_assoc append_take_drop_id concat_append map_append)
    finally have "concat (g1 @ g2) @ ?X
        = input_tables r @ concat (map input_tables accs)" .
    then have "concat (g1 @ g2) @ input_tables (merge_groups lib cf r accs)
        = input_tables r @ concat (map input_tables accs)"
      by (simp only: m)
    then show ?thesis by blast
  qed
qed

lemma merge_groups_counter:
  assumes "curr_batch_size r = sum_list (map (num_rows lib) (input_tables r))"
    and "\<forall>acc \<in> set accs. curr_batch_size acc = sum_list (map (num_rows lib) (input_tables acc))"
  shows "curr_batch_size (merge_groups lib cf r accs)
     = sum_list (map (num_rows lib) (input_tables (merge_groups lib cf r accs)))"
  using assms
proof (induction lib cf r accs rule: merge_groups.induct)
  case (1 lib cf r accs)
  show ?case
  proof (cases "accs = []")
    case True
    then show ?thesis using "1.prems" by simp
  next
    case False
    let ?r1 = "merge_group lib cf r (take 100 accs)"
    have a: "\<forall>acc \<in> set (take 100 accs).
               curr_batch_size acc = sum_list (map (num_rows lib) (input_tables acc))"
      using "1.prems"(2) by (meson in_set_takeD)
    have b: "\<forall>acc \<in> set (drop 100 accs).
               curr_batch_size acc = sum_list (map (num_rows lib) (input_tables acc))"
      using "1.prems"(2) by (meson in_set_dropD)
    have r1: "curr_batch_size ?r1 = sum_list (map (num_rows lib) (input_tables ?r1))"
      using pool_fold_counter[OF "1.prems"(1) a, of cf] by (simp add: merge_group_queue)
    have m: "merge_groups lib cf r accs = merge_groups lib cf ?r1 (drop 100 accs)"
      using False by (subst merge_groups.simps) simp
    show ?thesis unfolding m by (rule "1.IH"[OF False r1 b])
  qed
qed

lemma combine_merge_accumulators_pools_queues:
  "(\<exists>groups. concat groups @ input_tables (combine_merge_accumulators lib cf accs)
       = concat (map input_tables accs))
   \<and> ((\<forall>acc \<in> set accs. curr_batch_size acc = sum_list (map (num_rows lib) (input_tables acc)))
        \<longrightarrow> curr_batch_size (combine_merge_accumulators lib cf accs)
             = sum_list (map (num_rows lib) (input_tables (combine_merge_accumulators lib cf accs))))"
proof (intro conjI impI)
  show "\<exists>groups. concat groups @ input_tables (combine_merge_accumulators lib cf accs)
       = concat (map input_tables accs)"
    using merge_groups_queue[of lib cf "combine_create_accumulator cf" accs]
    by (simp add: combine_merge_accumulators_def combine_create_accumulator_def)
next
  assume a: "\<forall>acc \<in> set accs. curr_batch_size acc = sum_list (map (num_rows lib) (input_tables acc))"
  have "curr_batch_size (combine_create_accumulator cf)
        = sum_list (map (num_rows lib) (input_tables (combine_create_accumulator cf)))"
    by (simp add: combine_create_accumulator_def)
  then show "curr_batch_size (combine_merge_accumulators lib cf accs)
             = sum_list (map (num_rows lib) (input_tables (combine_merge_accumulators lib cf accs)))"
    unfolding combine_merge_accumulators_def using a by (rule merge_groups_counter)
qed

lemma zero_row_acc_eq: "zero_row_acc = \<lparr>partial_accumulators = [0], input_tables = [[]], curr_batch_size = 0\<rparr>"
  by (simp add: zero_row_acc_def zero_row_cf_def combine_fn_init_def combine_add_input_def
      maybe_do_batch_def combine_create_accumulator_def count_rows_generator_def row_list_library_def)

text \<open>
  Claim C4 as stated (a flush forced by \<open>compact\<close> or \<open>extract_output\<close> with a non-empty
  queue folds the queue and resets it) fails on a queue that holds tables of no rows only:
  the forced flush tests the row counter, not the queue. After a table of no rows has been
  added to a fresh accumulator the queue is not empty, and \<open>compact\<close> neither clears it
  nor folds anything.
\<close>

theorem compact_keeps_zero_row_queue:
  "input_tables zero_row_acc \<noteq> []
   \<and> input_tables (compact row_list_library zero_row_cf zero_row_acc) \<noteq> []
   \<and> partial_accumulators (compact row_list_library zero_row_cf zero_row_acc)
       = partial_accumulators zero_row_acc"
  by (simp add: zero_row_acc_eq compact_def maybe_do_batch_def zero_row_cf_def combine_fn_init_def)

text \<open>
  Claim C4, amended (the pending-queue invariant of the batching wrapper). \<open>add_input\<close>
  appends the batch to the queue and adds its row count to the counter; \<open>add_input\<close>,
  \<open>compact\<close> and \<open>extract_output\<close> then go through \<open>_maybe_do_batch\<close>, which flushes
  when the counter has reached the desired batch size, or when the flush is forced and the
  counter is positive: the whole queue, as one combined table, is folded into the
  accumulator of every wrapped generator by its \<open>add_input\<close>, and the queue and the
  counter are reset; otherwise the accumulator is left as it is. Over any run from a fresh
  accumulator, the tables added so far are, in order, those of the groups flushed so far
  followed by those still in the queue, every generator's accumulator is the fold of
  exactly these groups, and the counter is the number of rows in the queue: the queue is
  never cleared without having been folded into every generator. \<open>merge_accumulators\<close>
  pools the queues of the accumulators it merges and clears the pool only through
  \<open>_maybe_do_batch\<close>: the pooled tables are those of the groups it flushed followed by
  the queue of the result.
\<close>

theorem combine_fn_pending_queue_invariant:
  "combine_add_input lib cf acc t =
      maybe_do_batch lib cf
        (acc\<lparr>input_tables := input_tables acc @ [t],
             curr_batch_size := curr_batch_size acc + num_rows lib t\<rparr>) False
   \<and> compact lib cf acc = maybe_do_batch lib cf acc True
   \<and> fst (combine_extract_output lib merge_protos cf acc) = maybe_do_batch lib cf acc True
   \<and> maybe_do_batch lib cf acc force =
       (if (force \<and> 0 < curr_batch_size acc) \<or> desired_batch_size cf \<le> int (curr_batch_size acc)
        then acc\<lparr>partial_accumulators :=
                   map (\<lambda>(gen, a). gen_add_input gen a (combined_table lib (input_tables acc)))
                     (zip (generators cf) (partial_accumulators acc)),
                 input_tables := [], curr_batch_size := 0\<rparr>
        else acc)
   \<and> (length (partial_accumulators acc) = length (generators cf) \<longrightarrow>
        length (partial_accumulators (maybe_do_batch lib cf acc force)) = length (generators cf))
   \<and> (\<exists>groups.
          concat groups @ input_tables (run_combine_ops lib cf ops) = added_tables ops
        \<and> partial_accumulators (run_combine_ops lib cf ops) =
            map (\<lambda>gen. foldl (\<lambda>a grp. gen_add_input gen a (combined_table lib grp))
                       (gen_create_accumulator gen) groups) (generators cf)
        \<and> curr_batch_size (run_combine_ops lib cf ops)
            = sum_list (map (num_rows lib) (input_tables (run_combine_ops lib cf ops))))
   \<and> (\<exists>groups. concat groups @ input_tables (combine_merge_accumulators lib cf accs)
          = concat (map input_tables accs))"
proof -
  have 1: "combine_add_input lib cf acc t =
      maybe_do_batch lib cf
        (acc\<lparr>input_tables := input_tables acc @ [t],
             curr_batch_size := curr_batch_size acc + num_rows lib t\<rparr>) False"
    by (simp add: combine_add_input_def)
  have 2: "compact lib cf acc = maybe_do_batch lib cf acc True"
    by (simp add: compact_def)
  have 3: "fst (combine_extract_output lib merge_protos cf acc) = maybe_do_batch lib cf acc True"
    by (simp add: combine_extract_output_def Let_def)
  have 5: "length (partial_accumulators acc) = length (generators cf) \<longrightarrow>
        length (partial_accumulators (maybe_do_batch lib cf acc force)) = length (generators cf)"
    by (simp add: maybe_do_batch_cases)
  have 6: "\<exists>groups. concat groups @ input_tables (combine_merge_accumulators lib cf accs)
          = concat (map input_tables accs)"
    using combine_merge_accumulators_pools_queues[of lib cf accs] by (rule conjunct1)
  show ?thesis
    by (intro conjI)
       (fact 1, fact 2, fact 3, fact maybe_do_batch_cases, fact 5,
        fact combine_fn_never_loses_batches, fact 6)
qed

theorem combine_fn_pending_queue_invariant_witness:
  "maybe_do_batch row_list_library zero_row_cf pending_acc True
     = \<lparr>partial_accumulators = [3], input_tables = [], curr_batch_size = 0\<rparr>
   \<and> length (partial_accumulators (maybe_do_batch row_list_library zero_row_cf pending_acc True)) = 1"
proof -
  note t = combine_fn_pending_queue_invariant
    [of row_list_library zero_row_cf pending_acc "[]" id True "[]"]
  have eq: "maybe_do_batch row_list_library zero_row_cf pending_acc True =
       (if (True \<and> 0 < curr_batch_size pending_acc)
            \<or> desired_batch_size zero_row_cf \<le> int (curr_batch_size pending_acc)
        then pending_acc\<lparr>partial_accumulators :=
                   map (\<lambda>(gen, a). gen_add_input gen a
                          (combined_table row_list_library (input_tables pending_acc)))
                     (zip (generators zero_row_cf) (partial_accumulators pending_acc)),
                 input_tables := [], curr_batch_size := 0\<rparr>
        else pending_acc)"
    using t by blast
  have len: "length (partial_accumulators pending_acc) = length (generators zero_row_cf) \<longrightarrow>
        length (partial_accumulators (maybe_do_batch row_list_library zero_row_cf pending_acc True))
          = length (generators zero_row_cf)"
    using t by blast
  have v: "maybe_do_batch row_list_library zero_row_cf pending_acc True
     = \<lparr>partial_accumulators = [3], input_tables = [], curr_batch_size = 0\<rparr>"
    by (subst eq) (simp add: zero_row_cf_def combine_fn_init_def pending_acc_def
        count_rows_generator_def combined_table_def)
  have g: "length (partial_accumulators pending_acc) = length (generators zero_row_cf)"
    by (simp add: zero_row_cf_def combine_fn_init_def pending_acc_def)
  show ?thesis using v len g by (simp add: zero_row_cf_def combine_fn_init_def)
qed

lemma combine_fn_init_desired_pos:
  "0 < DEFAULT \<Longrightarrow> 0 < desired_batch_size (combine_fn_init DEFAULT gens desired)"
  by (simp add: combine_fn_init_def split: option.splits)

lemma maybe_do_batch_force_idem:
  assumes "0 < desired_batch_size cf"
  shows "maybe_do_batch lib cf (maybe_do_batch lib cf acc True) True = maybe_do_batch lib cf acc True"
    and "curr_batch_size (maybe_do_batch lib cf acc True) = 0"
    and "0 < curr_batch_size acc \<Longrightarrow> input_tables (maybe_do_batch lib cf acc True) = []"
  using assms by (auto simp: maybe_do_batch_cases)

text \<open>
  Claim C9, amended (\<open>extract_output\<close> twice on the same accumulator). For a combine
  function built by \<open>__init__\<close> with a positive default batch size, a second
  \<open>extract_output\<close> on the accumulator the first one leaves returns the same proto and
  leaves the accumulator as it is. After the first call the row counter is zero, and the
  queue is empty if the counter was positive before.
\<close>

theorem combine_extract_output_twice:
  assumes "0 < DEFAULT" and "cf = combine_fn_init DEFAULT gens desired"
  shows "combine_extract_output lib merge_protos cf (fst (combine_extract_output lib merge_protos cf acc))
           = combine_extract_output lib merge_protos cf acc
       \<and> curr_batch_size (fst (combine_extract_output lib merge_protos cf acc)) = 0
       \<and> (0 < curr_batch_size acc \<longrightarrow>
            input_tables (fst (combine_extract_output lib merge_protos cf acc)) = [])"
proof -
  have pos: "0 < desired_batch_size cf"
    using assms combine_fn_init_desired_pos by blast
  show ?thesis
    using maybe_do_batch_force_idem[OF pos]
    by (simp add: combine_extract_output_def Let_def)
qed

text \<open>
  Claim C9 as stated says that the queue is empty after the first \<open>extract_output\<close>. It is
  not when the queue holds tables of no rows only: the forced flush is skipped, since the
  counter is zero, and the queue stays as it is.
\<close>

theorem extract_output_keeps_zero_row_queue:
  "input_tables (fst (combine_extract_output row_list_library id zero_row_cf zero_row_acc)) \<noteq> []"
  by (simp add: zero_row_acc_eq combine_extract_output_def maybe_do_batch_def zero_row_cf_def combine_fn_init_def)

theorem combine_extract_output_twice_witness:
  "combine_extract_output row_list_library id zero_row_cf
      (fst (combine_extract_output row_list_library id zero_row_cf pending_acc))
     = (\<lparr>partial_accumulators = [3], input_tables = [], curr_batch_size = 0\<rparr>, [3])
   \<and> combine_extract_output row_list_library id zero_row_cf pending_acc
     = (\<lparr>partial_accumulators = [3], input_tables = [], curr_batch_size = 0\<rparr>, [3])"
proof -
  have d: "(0::int) < 1000" by simp
  have c: "zero_row_cf = combine_fn_init 1000 [count_rows_generator] (Some 10)"
    by (simp add: zero_row_cf_def)
  have e: "combine_extract_output row_list_library id zero_row_cf pending_acc
     = (\<lparr>partial_accumulators = [3], input_tables = [], curr_batch_size = 0\<rparr>, [3])"
    by (simp add: combine_extract_output_def maybe_do_batch_def zero_row_cf_def combine_fn_init_def
      pending_acc_def for_each_generator_def count_rows_generator_def)
  show ?thesis
    using combine_extract_output_twice[OF d c, of row_list_library id pending_acc] e
    by simp
qed

section \<open>Properties of the top-k output assembly\<close>

lemma topk_loop_step:
  "\<not> c < thr \<Longrightarrow>
   topk_loop u fp nt thr nb i ((v, c) # rest) out =
     topk_loop u fp nt thr nb (Suc i) rest
       (out\<lparr>out_top_values := out_top_values out @ (if int i < nt then [top_value_of u (v, c)] else []),
            out_rank_histogram := out_rank_histogram out @ (if int i < nb then [bucket_of u (i, (v, c))] else []),
            out_log := out_log out @ value_warnings u fp v\<rparr>)"
  by (cases v)
     (auto simp: top_value_of_def bucket_of_def value_label_def value_warnings_def
        split: option.splits)

lemma take_diff_Cons:
  "take (n - i) (x # ys) = (if i < n then x # take (n - Suc i) ys else [])"
proof (cases "i < n")
  case True
  then have "n - i = Suc (n - Suc i)" by simp
  then show ?thesis using True by simp
next
  case False
  then show ?thesis by simp
qed

lemma topk_loop_closed:
  "topk_loop u fp nt thr nb i xs out =
     out\<lparr>out_top_values := out_top_values out @
            map (top_value_of u) (take (nat nt - i) (takeWhile (\<lambda>vc. \<not> snd vc < thr) xs)),
         out_rank_histogram := out_rank_histogram out @
            map (bucket_of u) (take (nat nb - i) (enumerate i (takeWhile (\<lambda>vc. \<not> snd vc < thr) xs))),
         out_log := out_log out @
            concat (map (\<lambda>vc. value_warnings u fp (fst vc)) (takeWhile (\<lambda>vc. \<not> snd vc < thr) xs))\<rparr>"
proof (induction xs arbitrary: i out)
  case Nil
  then show ?case by simp
next
  case (Cons x xs)
  obtain v c where x: "x = (v, c)" by (cases x)
  show ?case
  proof (cases "c < thr")
    case True
    then show ?thesis using x by simp
  next
    case False
    have a: "int i < nt \<longleftrightarrow> i < nat nt" by linarith
    have b: "int i < nb \<longleftrightarrow> i < nat nb" by linarith
    show ?thesis
      unfolding x topk_loop_step[OF False] Cons.IH
      using False by (simp add: take_diff_Cons a b)
  qed
qed

lemma value_key_inj: "value_key a = value_key b \<Longrightarrow> a = b"
  by (cases a; cases b) auto

lemma sort_key_inj: "inj (\<lambda>counts :: feature_value_count. (snd counts, value_key (fst counts)))"
proof (rule injI)
  fix x y :: feature_value_count
  assume "(snd x, value_key (fst x)) = (snd y, value_key (fst y))"
  then have "snd x = snd y" and "value_key (fst x) = value_key (fst y)" by simp_all
  then show "x = y" using value_key_inj by (simp add: prod_eq_iff)
qed

lemma mset_sort_value_counts: "mset (sort_value_counts xs) = mset xs"
  by (simp add: sort_value_counts_def)

lemma sort_value_counts_perm:
  assumes "mset xs = mset ys"
  shows "sort_value_counts xs = sort_value_counts ys"
proof -
  have "mset (rev xs) = mset (rev ys)" using assms by simp
  moreover have "inj_on (\<lambda>counts :: feature_value_count. (snd counts, value_key (fst counts))) (set (rev xs))"
    using sort_key_inj by (rule inj_on_subset) simp
  ultimately show ?thesis
    unfolding sort_value_counts_def by (simp only: sort_key_eq_sort_key)
qed

lemma sort_value_counts_sorted:
  "sorted_wrt (\<lambda>a b. (snd b, value_key (fst b)) \<le> (snd a, value_key (fst a))) (sort_value_counts xs)"
proof -
  let ?k = "\<lambda>counts :: feature_value_count. (snd counts, value_key (fst counts))"
  have "sorted (map ?k (sort_key ?k (rev xs)))" by (rule sorted_sort_key)
  then have "sorted_wrt (\<lambda>a b. ?k a \<le> ?k b) (sort_key ?k (rev xs))"
    by (simp add: sorted_wrt_map)
  then show ?thesis
    unfolding sort_value_counts_def by (simp add: sorted_wrt_rev)
qed

lemma sort_value_counts_desc:
  "sorted_wrt (\<lambda>a b. snd b \<le> snd a) (sort_value_counts xs)"
  by (rule sorted_wrt_mono_rel[OF _ sort_value_counts_sorted]) (auto simp: less_eq_prod_def)

lemma takeWhile_eq_filter_desc:
  "sorted_wrt (\<lambda>a b. snd b \<le> snd a) ys \<Longrightarrow>
   takeWhile (\<lambda>vc. \<not> snd vc < (thr::real)) ys = filter (\<lambda>vc. \<not> snd vc < thr) ys"
proof (induction ys)
  case Nil
  then show ?case by simp
next
  case (Cons y ys)
  show ?case
  proof (cases "snd y < thr")
    case True
    then have "\<forall>z \<in> set ys. snd z < thr" using Cons.prems by auto
    then have "filter (\<lambda>vc. \<not> snd vc < thr) ys = []" by (simp add: filter_empty_conv)
    then show ?thesis using True by simp
  next
    case False
    then show ?thesis using Cons by simp
  qed
qed

lemma takeWhile_sorted_frequent:
  "takeWhile (\<lambda>vc. \<not> snd vc < thr) (sort_value_counts xs) = frequent_entries thr xs"
  unfolding frequent_entries_def
  by (rule takeWhile_eq_filter_desc[OF sort_value_counts_desc])

lemma topk_stats_unweighted:
  "make_feature_stats_proto_with_topk_stats u fp xs cat False nt thr nb =
     (\<lparr>fs_path = fp, fs_type = (if cat then Type_INT else Type_STRING),
       string_stats =
         \<lparr>unique = None,
          top_values = map (top_value_of u) (take (nat nt) (frequent_entries thr xs)),
          rank_histogram = map (bucket_of u) (take (nat nb) (enumerate 0 (frequent_entries thr xs))),
          weighted_string_stats = None\<rparr>\<rparr>,
      concat (map (\<lambda>vc. value_warnings u fp (fst vc)) (frequent_entries thr xs)))"
  by (simp add: make_feature_stats_proto_with_topk_stats_def Let_def topk_loop_closed
      takeWhile_sorted_frequent)

lemma topk_stats_weighted:
  "make_feature_stats_proto_with_topk_stats u fp xs cat True nt thr nb =
     (\<lparr>fs_path = fp, fs_type = (if cat then Type_INT else Type_STRING),
       string_stats =
         \<lparr>unique = None, top_values = [], rank_histogram = [],
          weighted_string_stats =
            (if take (nat nt) (frequent_entries thr xs) = [] \<and> take (nat nb) (frequent_entries thr xs) = []
             then None
             else Some \<lparr>w_top_values = map (top_value_of u) (take (nat nt) (frequent_entries thr xs)),
                        w_rank_histogram =
                          map (bucket_of u) (take (nat nb) (enumerate 0 (frequent_entries thr xs)))\<rparr>)\<rparr>\<rparr>,
      concat (map (\<lambda>vc. value_warnings u fp (fst vc)) (frequent_entries thr xs)))"
  by (simp add: make_feature_stats_proto_with_topk_stats_def Let_def topk_loop_closed
      takeWhile_sorted_frequent enumerate_eq_zip)

lemma top_values_make_feature_stats_proto:
  "top_values (string_stats (make_feature_stats_proto u fp vcl wvcl cat nt thr wthr nb))
     = map (top_value_of u) (take (nat nt) (frequent_entries thr vcl))"
  by (simp add: make_feature_stats_proto_def Let_def topk_stats_unweighted split: option.splits)

lemma rank_histogram_make_feature_stats_proto:
  "rank_histogram (string_stats (make_feature_stats_proto u fp vcl wvcl cat nt thr wthr nb))
     = map (bucket_of u) (take (nat nb) (enumerate 0 (frequent_entries thr vcl)))"
  by (simp add: make_feature_stats_proto_def Let_def topk_stats_unweighted split: option.splits)

lemma unique_make_feature_stats_proto:
  "unique (string_stats (make_feature_stats_proto u fp vcl wvcl cat nt thr wthr nb))
     = Some (length vcl)"
  by (simp add: make_feature_stats_proto_def Let_def split: option.splits)

lemma enumerate_eq_Nil: "enumerate i xs = [] \<longleftrightarrow> xs = []"
  by (cases xs) simp_all

lemma weighted_make_feature_stats_proto:
  "w \<noteq> [] \<Longrightarrow>
   weighted_string_stats (string_stats (make_feature_stats_proto u fp vcl (Some w) cat nt thr wthr nb))
     = Some \<lparr>w_top_values = map (top_value_of u) (take (nat nt) (frequent_entries wthr w)),
             w_rank_histogram = map (bucket_of u) (take (nat nb) (enumerate 0 (frequent_entries wthr w)))\<rparr>"
  by (simp add: make_feature_stats_proto_def Let_def topk_stats_weighted enumerate_eq_Nil)

lemma set_sort_value_counts: "set (sort_value_counts xs) = set xs"
  by (simp add: sort_value_counts_def)

lemma set_frequent_entries:
  "set (frequent_entries thr xs) = {vc \<in> set xs. \<not> snd vc < thr}"
  by (simp add: frequent_entries_def set_sort_value_counts)

lemma frequent_entries_above: "vc \<in> set (frequent_entries thr xs) \<Longrightarrow> \<not> snd vc < thr"
  by (simp add: set_frequent_entries)

lemma set_enumerate_snd: "ivc \<in> set (enumerate i xs) \<Longrightarrow> snd ivc \<in> set xs"
  by (cases ivc) (auto simp: in_set_enumerate_eq)

lemma set_take_enumerate_snd:
  "ivc \<in> set (take n (enumerate i xs)) \<Longrightarrow> snd ivc \<in> set xs"
  using in_set_takeD set_enumerate_snd by fast

text \<open>
  Claim C6 (frequency threshold, list bounds and unique count of the top-k assembly). For
  the value counts of an accumulator (its values are distinct), the top-values list and
  the rank histogram of \<open>_make_feature_stats_proto\<close> are made, in rank order, from the
  entries whose count is not below the frequency threshold, cut after \<open>num_top_values\<close>
  and after \<open>num_rank_histogram_buckets\<close> entries: no entry with a count below the
  threshold is in either list, and every frequency and sample count written is at least
  the threshold. The unique count is the number of all distinct values, whatever their
  counts. The weighted lists are made the same way from the weighted counts and the
  weighted threshold.
\<close>

theorem make_feature_stats_proto_threshold_and_unique:
  assumes "distinct (map fst vcl)"
  shows "top_values (string_stats (make_feature_stats_proto u fp vcl wvcl cat nt thr wthr nb))
           = map (top_value_of u) (take (nat nt) (frequent_entries thr vcl))
       \<and> rank_histogram (string_stats (make_feature_stats_proto u fp vcl wvcl cat nt thr wthr nb))
           = map (bucket_of u) (take (nat nb) (enumerate 0 (frequent_entries thr vcl)))
       \<and> set (frequent_entries thr vcl) = {vc \<in> set vcl. \<not> snd vc < thr}
       \<and> (\<forall>e \<in> set (top_values (string_stats (make_feature_stats_proto u fp vcl wvcl cat nt thr wthr nb))).
             \<not> fv_frequency e < thr)
       \<and> (\<forall>b \<in> set (rank_histogram (string_stats (make_feature_stats_proto u fp vcl wvcl cat nt thr wthr nb))).
             \<not> sample_count b < thr)
       \<and> int (length (top_values (string_stats (make_feature_stats_proto u fp vcl wvcl cat nt thr wthr nb))))
           \<le> max 0 nt
       \<and> int (length (rank_histogram (string_stats (make_feature_stats_proto u fp vcl wvcl cat nt thr wthr nb))))
           \<le> max 0 nb
       \<and> unique (string_stats (make_feature_stats_proto u fp vcl wvcl cat nt thr wthr nb))
           = Some (card (fst ` set vcl))
       \<and> (\<forall>w. wvcl = Some w \<and> w \<noteq> [] \<longrightarrow>
             weighted_string_stats (string_stats (make_feature_stats_proto u fp vcl wvcl cat nt thr wthr nb))
               = Some \<lparr>w_top_values = map (top_value_of u) (take (nat nt) (frequent_entries wthr w)),
                       w_rank_histogram =
                         map (bucket_of u) (take (nat nb) (enumerate 0 (frequent_entries wthr w)))\<rparr>
           \<and> set (frequent_entries wthr w) = {vc \<in> set w. \<not> snd vc < wthr})"
proof -
  let ?ss = "string_stats (make_feature_stats_proto u fp vcl wvcl cat nt thr wthr nb)"
  have fe: "set (frequent_entries t xs) = {vc \<in> set xs. \<not> snd vc < t}" for t xs
    by (rule set_frequent_entries)
  have tv: "top_values ?ss = map (top_value_of u) (take (nat nt) (frequent_entries thr vcl))"
    by (rule top_values_make_feature_stats_proto)
  have rh: "rank_histogram ?ss = map (bucket_of u) (take (nat nb) (enumerate 0 (frequent_entries thr vcl)))"
    by (rule rank_histogram_make_feature_stats_proto)
  have e1: "\<forall>e \<in> set (top_values ?ss). \<not> fv_frequency e < thr"
  proof
    fix e assume "e \<in> set (top_values ?ss)"
    then obtain vc where "vc \<in> set (take (nat nt) (frequent_entries thr vcl))"
      and e: "e = top_value_of u vc"
      unfolding tv by auto
    then have "\<not> snd vc < thr" using in_set_takeD frequent_entries_above by fast
    then show "\<not> fv_frequency e < thr" by (simp add: e top_value_of_def)
  qed
  have e2: "\<forall>b \<in> set (rank_histogram ?ss). \<not> sample_count b < thr"
  proof
    fix b assume "b \<in> set (rank_histogram ?ss)"
    then obtain ivc where "ivc \<in> set (take (nat nb) (enumerate 0 (frequent_entries thr vcl)))"
      and b: "b = bucket_of u ivc"
      unfolding rh by auto
    then have "\<not> snd (snd ivc) < thr" using set_take_enumerate_snd frequent_entries_above by fast
    then show "\<not> sample_count b < thr" by (simp add: b bucket_of_def)
  qed
  have l1: "int (length (top_values ?ss)) \<le> max 0 nt"
    unfolding tv by simp
  have l2: "int (length (rank_histogram ?ss)) \<le> max 0 nb"
    unfolding rh by simp
  have "card (fst ` set vcl) = length vcl"
    using assms by (metis distinct_card length_map set_map)
  then have un: "unique ?ss = Some (card (fst ` set vcl))"
    by (simp add: unique_make_feature_stats_proto)
  have ws: "\<forall>w. wvcl = Some w \<and> w \<noteq> [] \<longrightarrow>
             weighted_string_stats ?ss
               = Some \<lparr>w_top_values = map (top_value_of u) (take (nat nt) (frequent_entries wthr w)),
                       w_rank_histogram =
                         map (bucket_of u) (take (nat nb) (enumerate 0 (frequent_entries wthr w)))\<rparr>
           \<and> set (frequent_entries wthr w) = {vc \<in> set w. \<not> snd vc < wthr}"
  proof (intro allI impI conjI)
    fix w assume "wvcl = Some w \<and> w \<noteq> []"
    then show "weighted_string_stats ?ss
               = Some \<lparr>w_top_values = map (top_value_of u) (take (nat nt) (frequent_entries wthr w)),
                       w_rank_histogram =
                         map (bucket_of u) (take (nat nb) (enumerate 0 (frequent_entries wthr w)))\<rparr>"
      using weighted_make_feature_stats_proto[of w u fp vcl cat nt thr wthr nb] by simp
  next
    fix w show "set (frequent_entries wthr w) = {vc \<in> set w. \<not> snd vc < wthr}" by (rule fe)
  qed
  show ?thesis
    by (intro conjI) (fact tv, fact rh, fact fe, fact e1, fact e2, fact l1, fact l2, fact un, fact ws)
qed

lemma frequent_example:
  "frequent_entries 2 [(BytesValue ''b'', 1), (BytesValue ''a'', 3), (BytesValue ''c'', 2)]
     = [(BytesValue ''a'', 3), (BytesValue ''c'', 2)]"
  by (simp add: frequent_entries_def sort_value_counts_def)

theorem make_feature_stats_proto_threshold_and_unique_witness:
  "top_values (string_stats (make_feature_stats_proto Some [''f'']
       [(BytesValue ''b'', 1), (BytesValue ''a'', 3), (BytesValue ''c'', 2)] None False 1 2 2 5))
     = [\<lparr>fv_value = ''a'', fv_frequency = 3\<rparr>]
   \<and> rank_histogram (string_stats (make_feature_stats_proto Some [''f'']
       [(BytesValue ''b'', 1), (BytesValue ''a'', 3), (BytesValue ''c'', 2)] None False 1 2 2 5))
     = [\<lparr>low_rank = 0, high_rank = 0, sample_count = 3, label = ''a''\<rparr>,
        \<lparr>low_rank = 1, high_rank = 1, sample_count = 2, label = ''c''\<rparr>]
   \<and> unique (string_stats (make_feature_stats_proto Some [''f'']
       [(BytesValue ''b'', 1), (BytesValue ''a'', 3), (BytesValue ''c'', 2)] None False 1 2 2 5))
     = Some 3"
proof -
  let ?vcl = "[(BytesValue ''b'', 1), (BytesValue ''a'', 3), (BytesValue ''c'', 2)] :: feature_value_count list"
  have d: "distinct (map fst ?vcl)" by simp
  have c: "card (fst ` set ?vcl) = 3" by simp
  have e: "enumerate 0 [(BytesValue ''a'', 3::real), (BytesValue ''c'', 2)]
             = [(0, (BytesValue ''a'', 3)), (1, (BytesValue ''c'', 2))]"
    by (simp add: enumerate_eq_zip upt_rec)
  show ?thesis
    using make_feature_stats_proto_threshold_and_unique[OF d, of Some "[''f'']" None False 1 2 2 5]
    by (simp add: frequent_example c e top_value_of_def bucket_of_def value_label_def)
qed

text \<open>
  Claim C7 (the top-k ordering is deterministic). Two lists with the same value-count pairs,
  in whatever order, give the same proto and the same warnings. The list the buckets are
  read from is a rearrangement of the input in which every entry has a larger count than
  the entries after it or, at equal counts, the larger value; the rank histogram numbers
  the frequent entries of this list from rank 0. The witness runs the counts
  \<open>{a: 2, b: 1, c: 1}\<close> in two orders: the labels are \<open>a, c, b\<close>.
\<close>

theorem topk_ordering_deterministic:
  "(mset xs = mset ys \<longrightarrow>
      make_feature_stats_proto_with_topk_stats u fp xs cat w nt thr nb
        = make_feature_stats_proto_with_topk_stats u fp ys cat w nt thr nb)
   \<and> mset (sort_value_counts xs) = mset xs
   \<and> sorted_wrt (\<lambda>a b. snd b < snd a \<or> (snd b = snd a \<and> value_key (fst b) \<le> value_key (fst a)))
        (sort_value_counts xs)
   \<and> rank_histogram (string_stats (fst (make_feature_stats_proto_with_topk_stats u fp xs cat False nt thr nb)))
       = map (bucket_of u) (take (nat nb) (enumerate 0
           (filter (\<lambda>vc. \<not> snd vc < thr) (sort_value_counts xs))))"
proof -
  have a: "mset xs = mset ys \<longrightarrow>
      make_feature_stats_proto_with_topk_stats u fp xs cat w nt thr nb
        = make_feature_stats_proto_with_topk_stats u fp ys cat w nt thr nb"
    by (auto simp: make_feature_stats_proto_with_topk_stats_def dest: sort_value_counts_perm)
  have b: "sorted_wrt (\<lambda>a b. snd b < snd a \<or> (snd b = snd a \<and> value_key (fst b) \<le> value_key (fst a)))
        (sort_value_counts xs)"
    by (rule sorted_wrt_mono_rel[OF _ sort_value_counts_sorted]) (auto simp: less_eq_prod_def)
  have c: "rank_histogram (string_stats (fst (make_feature_stats_proto_with_topk_stats u fp xs cat False nt thr nb)))
       = map (bucket_of u) (take (nat nb) (enumerate 0
           (filter (\<lambda>vc. \<not> snd vc < thr) (sort_value_counts xs))))"
    by (simp add: topk_stats_unweighted frequent_entries_def)
  show ?thesis using a b c mset_sort_value_counts by blast
qed

lemma sort_example:
  "sort_value_counts [(BytesValue ''b'', 1), (BytesValue ''a'', 2), (BytesValue ''c'', 1)]
     = [(BytesValue ''a'', 2), (BytesValue ''c'', 1), (BytesValue ''b'', 1)]"
  by (simp add: sort_value_counts_def)

theorem topk_ordering_deterministic_witness:
  "make_feature_stats_proto_with_topk_stats Some [''f'']
       [(BytesValue ''b'', 1), (BytesValue ''a'', 2), (BytesValue ''c'', 1)] False False 2 1 1000
     = make_feature_stats_proto_with_topk_stats Some [''f'']
       [(BytesValue ''c'', 1), (BytesValue ''b'', 1), (BytesValue ''a'', 2)] False False 2 1 1000
   \<and> map label (rank_histogram (string_stats (fst (make_feature_stats_proto_with_topk_stats Some [''f'']
       [(BytesValue ''b'', 1), (BytesValue ''a'', 2), (BytesValue ''c'', 1)] False False 2 1 1000))))
     = [''a'', ''c'', ''b'']"
proof -
  let ?xs = "[(BytesValue ''b'', 1), (BytesValue ''a'', 2), (BytesValue ''c'', 1)] :: feature_value_count list"
  let ?ys = "[(BytesValue ''c'', 1), (BytesValue ''b'', 1), (BytesValue ''a'', 2)] :: feature_value_count list"
  have m: "mset ?xs = mset ?ys" by simp
  have e: "enumerate 0 [(BytesValue ''a'', 2::real), (BytesValue ''c'', 1), (BytesValue ''b'', 1)]
             = [(0, (BytesValue ''a'', 2)), (1, (BytesValue ''c'', 1)), (2, (BytesValue ''b'', 1))]"
    by (simp add: enumerate_eq_zip upt_rec)
  note t = topk_ordering_deterministic[of ?xs ?ys Some "[''f'']" False False 2 1 1000]
  have eq: "make_feature_stats_proto_with_topk_stats Some [''f''] ?xs False False 2 1 1000
            = make_feature_stats_proto_with_topk_stats Some [''f''] ?ys False False 2 1 1000"
    using t m by blast
  have rh: "rank_histogram (string_stats (fst
              (make_feature_stats_proto_with_topk_stats Some [''f''] ?xs False False 2 1 1000)))
            = map (bucket_of Some) (take (nat 1000) (enumerate 0
                (filter (\<lambda>vc. \<not> snd vc < 1) (sort_value_counts ?xs))))"
    using t by blast
  have lab: "map label (rank_histogram (string_stats (fst
              (make_feature_stats_proto_with_topk_stats Some [''f''] ?xs False False 2 1 1000))))
            = [''a'', ''c'', ''b'']"
    unfolding rh by (simp add: sort_example e bucket_of_def value_label_def)
  show ?thesis using eq lab by blast
qed

lemma concat_value_warnings:
  "concat (map (\<lambda>vc. value_warnings u fp (fst vc)) xs)
     = map (\<lambda>vc. UndecodableBytesWarning fp)
         (filter (\<lambda>vc. case fst vc of BytesValue b \<Rightarrow> u b = None | _ \<Rightarrow> False) xs)"
  by (induction xs)
     (auto simp: value_warnings_def split: feature_value.splits option.splits)

lemma value_label_cases:
  "value_label u v =
     (case v of
        BytesValue b \<Rightarrow> (case u b of None \<Rightarrow> ''__BYTES_VALUE__'' | Some s \<Rightarrow> s)
      | TextValue s \<Rightarrow> s
      | IntValue n \<Rightarrow> str_int n)"
  by (simp add: value_label_def INVALID_STRING_def split: feature_value.splits option.splits)

lemma nth_top_values:
  assumes "i < length (map (top_value_of u) (take n fe))"
  shows "fv_value (map (top_value_of u) (take n fe) ! i) = value_label u (fst (fe ! i))"
  using assms by (simp add: top_value_of_def)

lemma nth_buckets:
  assumes "i < length (map (bucket_of u) (take n (enumerate 0 fe)))"
  shows "label (map (bucket_of u) (take n (enumerate 0 fe)) ! i) = value_label u (fst (fe ! i))"
  using assms by (simp add: bucket_of_def nth_enumerate_eq)

text \<open>
  Claim C8 (undecodable bytes get the sentinel label). The assembly is a total function: it
  returns a proto for every list. The value of the \<open>i\<close>-th top value and the label of the
  \<open>i\<close>-th bucket, unweighted or weighted, belong to the \<open>i\<close>-th frequent entry: for a bytes
  value they are the decoded text when \<open>maybe_get_utf8\<close> decodes it and
  \<open>__BYTES_VALUE__\<close> when it does not, and a text value is kept as it is. One warning is
  logged for every frequent entry whose bytes value cannot be decoded.
\<close>

theorem undecodable_bytes_get_sentinel:
  "(\<forall>i < length (top_values (string_stats (fst
          (make_feature_stats_proto_with_topk_stats u fp xs cat False nt thr nb)))).
      fv_value (top_values (string_stats (fst
          (make_feature_stats_proto_with_topk_stats u fp xs cat False nt thr nb))) ! i) =
        (case fst (frequent_entries thr xs ! i) of
           BytesValue b \<Rightarrow> (case u b of None \<Rightarrow> ''__BYTES_VALUE__'' | Some s \<Rightarrow> s)
         | TextValue s \<Rightarrow> s
         | IntValue n \<Rightarrow> str_int n))
   \<and> (\<forall>i < length (rank_histogram (string_stats (fst
          (make_feature_stats_proto_with_topk_stats u fp xs cat False nt thr nb)))).
      label (rank_histogram (string_stats (fst
          (make_feature_stats_proto_with_topk_stats u fp xs cat False nt thr nb))) ! i) =
        (case fst (frequent_entries thr xs ! i) of
           BytesValue b \<Rightarrow> (case u b of None \<Rightarrow> ''__BYTES_VALUE__'' | Some s \<Rightarrow> s)
         | TextValue s \<Rightarrow> s
         | IntValue n \<Rightarrow> str_int n))
   \<and> (\<forall>ws. weighted_string_stats (string_stats (fst
          (make_feature_stats_proto_with_topk_stats u fp xs cat True nt thr nb))) = Some ws \<longrightarrow>
        (\<forall>i < length (w_top_values ws).
           fv_value (w_top_values ws ! i) =
             (case fst (frequent_entries thr xs ! i) of
                BytesValue b \<Rightarrow> (case u b of None \<Rightarrow> ''__BYTES_VALUE__'' | Some s \<Rightarrow> s)
              | TextValue s \<Rightarrow> s
              | IntValue n \<Rightarrow> str_int n))
      \<and> (\<forall>i < length (w_rank_histogram ws).
           label (w_rank_histogram ws ! i) =
             (case fst (frequent_entries thr xs ! i) of
                BytesValue b \<Rightarrow> (case u b of None \<Rightarrow> ''__BYTES_VALUE__'' | Some s \<Rightarrow> s)
              | TextValue s \<Rightarrow> s
              | IntValue n \<Rightarrow> str_int n)))
   \<and> snd (make_feature_stats_proto_with_topk_stats u fp xs cat w nt thr nb) =
       map (\<lambda>vc. UndecodableBytesWarning fp)
         (filter (\<lambda>vc. case fst vc of BytesValue b \<Rightarrow> u b = None | _ \<Rightarrow> False)
            (frequent_entries thr xs))"
proof (intro conjI allI impI)
  fix i
  assume "i < length (top_values (string_stats (fst
          (make_feature_stats_proto_with_topk_stats u fp xs cat False nt thr nb))))"
  then show "fv_value (top_values (string_stats (fst
          (make_feature_stats_proto_with_topk_stats u fp xs cat False nt thr nb))) ! i) =
        (case fst (frequent_entries thr xs ! i) of
           BytesValue b \<Rightarrow> (case u b of None \<Rightarrow> ''__BYTES_VALUE__'' | Some s \<Rightarrow> s)
         | TextValue s \<Rightarrow> s
         | IntValue n \<Rightarrow> str_int n)"
    unfolding topk_stats_unweighted value_label_cases[symmetric]
    using nth_top_values[of i u "nat nt" "frequent_entries thr xs"] by simp
next
  fix i
  assume "i < length (rank_histogram (string_stats (fst
          (make_feature_stats_proto_with_topk_stats u fp xs cat False nt thr nb))))"
  then show "label (rank_histogram (string_stats (fst
          (make_feature_stats_proto_with_topk_stats u fp xs cat False nt thr nb))) ! i) =
        (case fst (frequent_entries thr xs ! i) of
           BytesValue b \<Rightarrow> (case u b of None \<Rightarrow> ''__BYTES_VALUE__'' | Some s \<Rightarrow> s)
         | TextValue s \<Rightarrow> s
         | IntValue n \<Rightarrow> str_int n)"
    unfolding topk_stats_unweighted value_label_cases[symmetric]
    using nth_buckets[of i u "nat nb" "frequent_entries thr xs"] by simp
next
  fix ws i
  assume ws: "weighted_string_stats (string_stats (fst
          (make_feature_stats_proto_with_topk_stats u fp xs cat True nt thr nb))) = Some ws"
    and i: "i < length (w_top_values ws)"
  from ws have "w_top_values ws = map (top_value_of u) (take (nat nt) (frequent_entries thr xs))"
    unfolding topk_stats_weighted by (auto split: if_splits)
  then show "fv_value (w_top_values ws ! i) =
             (case fst (frequent_entries thr xs ! i) of
                BytesValue b \<Rightarrow> (case u b of None \<Rightarrow> ''__BYTES_VALUE__'' | Some s \<Rightarrow> s)
              | TextValue s \<Rightarrow> s
              | IntValue n \<Rightarrow> str_int n)"
    unfolding value_label_cases[symmetric]
    using nth_top_values[of i u "nat nt" "frequent_entries thr xs"] i by simp
next
  fix ws i
  assume ws: "weighted_string_stats (string_stats (fst
          (make_feature_stats_proto_with_topk_stats u fp xs cat True nt thr nb))) = Some ws"
    and i: "i < length (w_rank_histogram ws)"
  from ws have "w_rank_histogram ws = map (bucket_of u) (take (nat nb) (enumerate 0 (frequent_entries thr xs)))"
    unfolding topk_stats_weighted by (auto split: if_splits)
  then show "label (w_rank_histogram ws ! i) =
             (case fst (frequent_entries thr xs ! i) of
                BytesValue b \<Rightarrow> (case u b of None \<Rightarrow> ''__BYTES_VALUE__'' | Some s \<Rightarrow> s)
              | TextValue s \<Rightarrow> s
              | IntValue n \<Rightarrow> str_int n)"
    unfolding value_label_cases[symmetric]
    using nth_buckets[of i u "nat nb" "frequent_entries thr xs"] i by simp
next
  show "snd (make_feature_stats_proto_with_topk_stats u fp xs cat w nt thr nb) =
       map (\<lambda>vc. UndecodableBytesWarning fp)
         (filter (\<lambda>vc. case fst vc of BytesValue b \<Rightarrow> u b = None | _ \<Rightarrow> False)
            (frequent_entries thr xs))"
    by (cases w) (simp_all add: topk_stats_weighted topk_stats_unweighted concat_value_warnings)
qed

lemma frequent_example_bytes:
  "frequent_entries 1 [(BytesValue ''a'', 1), (BytesValue [CHR 0xFF], 2)]
     = [(BytesValue [CHR 0xFF], 2), (BytesValue ''a'', 1)]"
  by (simp add: frequent_entries_def sort_value_counts_def)

theorem undecodable_bytes_get_sentinel_witness:
  "fv_value (top_values (string_stats (fst (make_feature_stats_proto_with_topk_stats ascii_only [''f'']
       [(BytesValue ''a'', 1), (BytesValue [CHR 0xFF], 2)] False False 2 1 1000))) ! 0)
     = ''__BYTES_VALUE__''
   \<and> fv_value (top_values (string_stats (fst (make_feature_stats_proto_with_topk_stats ascii_only [''f'']
       [(BytesValue ''a'', 1), (BytesValue [CHR 0xFF], 2)] False False 2 1 1000))) ! 1)
     = ''a''
   \<and> snd (make_feature_stats_proto_with_topk_stats ascii_only [''f'']
       [(BytesValue ''a'', 1), (BytesValue [CHR 0xFF], 2)] False False 2 1 1000)
     = [UndecodableBytesWarning [''f'']]"
proof -
  let ?xs = "[(BytesValue ''a'', 1), (BytesValue [CHR 0xFF], 2)] :: feature_value_count list"
  let ?tv = "top_values (string_stats (fst (make_feature_stats_proto_with_topk_stats ascii_only [''f'']
       ?xs False False 2 1 1000)))"
  note t = undecodable_bytes_get_sentinel[of ascii_only "[''f'']" ?xs False 2 1 1000 False]
  have len: "length ?tv = 2"
    by (simp add: topk_stats_unweighted frequent_example_bytes)
  have a1: "ascii_only [CHR 0xFF] = None" by (simp add: ascii_only_def)
  have a2: "ascii_only ''a'' = Some ''a''" by (simp add: ascii_only_def)
  have all: "\<forall>i < length ?tv. fv_value (?tv ! i) =
        (case fst (frequent_entries 1 ?xs ! i) of
           BytesValue b \<Rightarrow> (case ascii_only b of None \<Rightarrow> ''__BYTES_VALUE__'' | Some s \<Rightarrow> s)
         | TextValue s \<Rightarrow> s
         | IntValue n \<Rightarrow> str_int n)"
    using t by blast
  have l: "snd (make_feature_stats_proto_with_topk_stats ascii_only [''f''] ?xs False False 2 1 1000) =
       map (\<lambda>vc. UndecodableBytesWarning [''f''])
         (filter (\<lambda>vc. case fst vc of BytesValue b \<Rightarrow> ascii_only b = None | _ \<Rightarrow> False)
            (frequent_entries 1 ?xs))"
    using t by blast
  have v0: "fv_value (?tv ! 0) = ''__BYTES_VALUE__''"
    using all len by (simp add: frequent_example_bytes a1)
  have v1: "fv_value (?tv ! 1) = ''a''"
    using all len by (simp add: frequent_example_bytes a2)
  have lg: "snd (make_feature_stats_proto_with_topk_stats ascii_only [''f''] ?xs False False 2 1 1000)
     = [UndecodableBytesWarning [''f'']]"
    unfolding l by (simp add: frequent_example_bytes a1 a2)
  show ?thesis using v0 v1 lg by blast
qed

section \<open>Properties of the example-count reconciliation\<close>

lemma update_missing_counts_error:
  "\<exists>f \<in> set fs. n < real (num_non_missing (common_stats_of f)) \<Longrightarrow>
   update_missing_counts n w fs = Inl AssertionError"
proof (induction fs)
  case Nil
  then show ?case by simp
next
  case (Cons f fs)
  show ?case
  proof (cases "n < real (num_non_missing (common_stats_of f))")
    case True
    then show ?thesis by simp
  next
    case False
    then have "\<exists>g \<in> set fs. n < real (num_non_missing (common_stats_of g))"
      using Cons.prems by auto
    then have "update_missing_counts n w fs = Inl AssertionError" by (rule Cons.IH)
    then show ?thesis using False by simp
  qed
qed

lemma update_missing_counts_ok:
  "\<forall>f \<in> set fs. real (num_non_missing (common_stats_of f)) \<le> n \<Longrightarrow>
   update_missing_counts n w fs = Inr (map (set_missing_counts n w) fs)"
  by (induction fs) simp_all

lemma get_feature_stats_path:
  "get_feature_stats fs p = Inr d \<Longrightarrow> f_path d = p \<and> d \<in> set fs"
  by (induction fs) (auto split: if_splits)

lemma set_missing_counts_props:
  "f_path (set_missing_counts n w f) = f_path f"
  "num_non_missing (common_stats_of (set_missing_counts n w f)) = num_non_missing (common_stats_of f)"
  "num_missing (common_stats_of (set_missing_counts n w f))
     = nat (py_int (n - real (num_non_missing (common_stats_of f))))"
  "w \<noteq> 0 \<Longrightarrow> wcs_num_missing (weighted_common_stats (common_stats_of (set_missing_counts n w f)))
     = w - wcs_num_non_missing (weighted_common_stats (common_stats_of f))"
  by (simp_all add: set_missing_counts_def common_stats_of_def Let_def split: stats_oneof.splits)

lemma py_int_nonneg: "0 \<le> x \<Longrightarrow> py_int x = \<lfloor>x\<rfloor>"
  by (simp add: py_int_def)

lemma remove1_distinct_path:
  assumes "distinct (map f_path fs)" and "d \<in> set fs"
  shows "f_path d \<notin> f_path ` set (remove1 d fs)"
  using assms
proof (induction fs)
  case Nil
  then show ?case by simp
next
  case (Cons f fs)
  show ?case
  proof (cases "d = f")
    case True
    then show ?thesis using Cons.prems by auto
  next
    case False
    then have "d \<in> set fs" using Cons.prems by simp
    moreover have "distinct (map f_path fs)" using Cons.prems by simp
    ultimately have "f_path d \<notin> f_path ` set (remove1 d fs)" by (rule Cons.IH[rotated])
    moreover have "f_path d \<noteq> f_path f"
    proof -
      have "f_path d \<in> f_path ` set fs" using \<open>d \<in> set fs\<close> by (rule imageI)
      moreover have "f_path f \<notin> f_path ` set fs" using Cons.prems by simp
      ultimately show ?thesis by metis
    qed
    ultimately show ?thesis using False by auto
  qed
qed

text \<open>
  Claim C5 (example-count reconciliation). Let the proto hold the synthetic entry, with
  the number of examples \<open>n\<close> and the weighted number of examples \<open>w\<close> among its custom
  statistics. If some other feature has more non-missing values than \<open>n\<close>, the
  reconciliation raises an error and returns no proto. Otherwise (for \<open>n \<ge> 0\<close>) it
  returns the proto without the synthetic entry, the remaining features in their order,
  each with its non-missing count as before, its missing count set to \<open>n\<close> minus its
  non-missing count and, when \<open>w\<close> is not zero, its weighted missing count set to \<open>w\<close>
  minus its weighted non-missing count; the number of examples of the dataset is \<open>n\<close>.
  When the feature paths are distinct, no feature of the result has the synthetic path.
\<close>

theorem update_example_and_missing_count_reconciles:
  assumes "get_feature_stats (features s) DUMMY_FEATURE_PATH = Inr d"
    and "get_custom_stats d NUM_EXAMPLES_KEY = Inr n"
    and "get_custom_stats d WEIGHTED_NUM_EXAMPLES_KEY = Inr w"
  shows "((\<exists>f \<in> set (remove1 d (features s)). n < real (num_non_missing (common_stats_of f))) \<longrightarrow>
            update_example_and_missing_count s = Inl AssertionError)
       \<and> ((\<forall>f \<in> set (remove1 d (features s)). real (num_non_missing (common_stats_of f)) \<le> n)
            \<and> 0 \<le> n \<longrightarrow>
          (\<exists>s'. update_example_and_missing_count s = Inr s'
             \<and> int (dataset_num_examples s') = \<lfloor>n\<rfloor>
             \<and> length (features s') = length (remove1 d (features s))
             \<and> (\<forall>i < length (features s').
                   f_path (features s' ! i) = f_path (remove1 d (features s) ! i)
                 \<and> num_non_missing (common_stats_of (features s' ! i))
                     = num_non_missing (common_stats_of (remove1 d (features s) ! i))
                 \<and> int (num_missing (common_stats_of (features s' ! i)))
                     = \<lfloor>n - real (num_non_missing (common_stats_of (remove1 d (features s) ! i)))\<rfloor>
                 \<and> (w \<noteq> 0 \<longrightarrow>
                      wcs_num_missing (weighted_common_stats (common_stats_of (features s' ! i)))
                        = w - wcs_num_non_missing (weighted_common_stats
                                (common_stats_of (remove1 d (features s) ! i)))))
             \<and> (distinct (map f_path (features s)) \<longrightarrow>
                   DUMMY_FEATURE_PATH \<notin> f_path ` set (features s'))))"
proof (intro conjI impI)
  assume "\<exists>f \<in> set (remove1 d (features s)). n < real (num_non_missing (common_stats_of f))"
  then have "update_missing_counts n w (remove1 d (features s)) = Inl AssertionError"
    by (rule update_missing_counts_error)
  then show "update_example_and_missing_count s = Inl AssertionError"
    using assms by (simp add: update_example_and_missing_count_def)
next
  let ?rem = "remove1 d (features s)"
  let ?s' = "s\<lparr>features := map (set_missing_counts n w) ?rem,
                dataset_num_examples := nat (py_int n)\<rparr>"
  assume a: "(\<forall>f \<in> set ?rem. real (num_non_missing (common_stats_of f)) \<le> n) \<and> 0 \<le> n"
  then have ok: "update_missing_counts n w ?rem = Inr (map (set_missing_counts n w) ?rem)"
    using update_missing_counts_ok by blast
  have n0: "py_int n = \<lfloor>n\<rfloor>" and n1: "0 \<le> \<lfloor>n\<rfloor>" using a by (simp_all add: py_int_nonneg)
  have r: "update_example_and_missing_count s = Inr ?s'"
    using assms ok n0 n1 by (simp add: update_example_and_missing_count_def)
  have ne: "int (dataset_num_examples ?s') = \<lfloor>n\<rfloor>" using n0 n1 by simp
  have len: "length (features ?s') = length ?rem" by simp
  have each: "\<forall>i < length (features ?s').
                   f_path (features ?s' ! i) = f_path (?rem ! i)
                 \<and> num_non_missing (common_stats_of (features ?s' ! i))
                     = num_non_missing (common_stats_of (?rem ! i))
                 \<and> int (num_missing (common_stats_of (features ?s' ! i)))
                     = \<lfloor>n - real (num_non_missing (common_stats_of (?rem ! i)))\<rfloor>
                 \<and> (w \<noteq> 0 \<longrightarrow>
                      wcs_num_missing (weighted_common_stats (common_stats_of (features ?s' ! i)))
                        = w - wcs_num_non_missing (weighted_common_stats (common_stats_of (?rem ! i))))"
  proof (intro allI impI)
    fix i assume "i < length (features ?s')"
    then have i: "i < length ?rem" by simp
    then have "?rem ! i \<in> set ?rem" by (rule nth_mem)
    then have "0 \<le> n - real (num_non_missing (common_stats_of (?rem ! i)))" using a by simp
    then have "int (nat (py_int (n - real (num_non_missing (common_stats_of (?rem ! i))))))
               = \<lfloor>n - real (num_non_missing (common_stats_of (?rem ! i)))\<rfloor>"
      by (simp add: py_int_nonneg)
    then show "f_path (features ?s' ! i) = f_path (?rem ! i)
                 \<and> num_non_missing (common_stats_of (features ?s' ! i))
                     = num_non_missing (common_stats_of (?rem ! i))
                 \<and> int (num_missing (common_stats_of (features ?s' ! i)))
                     = \<lfloor>n - real (num_non_missing (common_stats_of (?rem ! i)))\<rfloor>
                 \<and> (w \<noteq> 0 \<longrightarrow>
                      wcs_num_missing (weighted_common_stats (common_stats_of (features ?s' ! i)))
                        = w - wcs_num_non_missing (weighted_common_stats (common_stats_of (?rem ! i))))"
      using i by (simp add: set_missing_counts_props)
  qed
  have dp: "distinct (map f_path (features s)) \<longrightarrow>
                   DUMMY_FEATURE_PATH \<notin> f_path ` set (features ?s')"
  proof
    assume dist: "distinct (map f_path (features s))"
    have d: "f_path d = DUMMY_FEATURE_PATH" "d \<in> set (features s)"
      using get_feature_stats_path[OF assms(1)] by simp_all
    have "f_path d \<notin> f_path ` set ?rem" using remove1_distinct_path[OF dist d(2)] .
    moreover have "f_path ` set (features ?s') = f_path ` set ?rem"
      by (simp add: image_image set_missing_counts_props)
    ultimately show "DUMMY_FEATURE_PATH \<notin> f_path ` set (features ?s')" using d(1) by simp
  qed
  show "\<exists>s'. update_example_and_missing_count s = Inr s'
             \<and> int (dataset_num_examples s') = \<lfloor>n\<rfloor>
             \<and> length (features s') = length ?rem
             \<and> (\<forall>i < length (features s').
                   f_path (features s' ! i) = f_path (?rem ! i)
                 \<and> num_non_missing (common_stats_of (features s' ! i))
                     = num_non_missing (common_stats_of (?rem ! i))
                 \<and> int (num_missing (common_stats_of (features s' ! i)))
                     = \<lfloor>n - real (num_non_missing (common_stats_of (?rem ! i)))\<rfloor>
                 \<and> (w \<noteq> 0 \<longrightarrow>
                      wcs_num_missing (weighted_common_stats (common_stats_of (features s' ! i)))
                        = w - wcs_num_non_missing (weighted_common_stats
                                (common_stats_of (?rem ! i)))))
             \<and> (distinct (map f_path (features s)) \<longrightarrow>
                   DUMMY_FEATURE_PATH \<notin> f_path ` set (features s'))"
    by (rule exI[of _ ?s']) (intro conjI, fact r, fact ne, fact len, fact each, fact dp)
qed

lemma example_stats_lookup:
  "get_feature_stats (features (example_stats k)) DUMMY_FEATURE_PATH = Inr example_dummy_feature"
  "get_custom_stats example_dummy_feature NUM_EXAMPLES_KEY = Inr 10"
  "get_custom_stats example_dummy_feature WEIGHTED_NUM_EXAMPLES_KEY = Inr 0"
  "remove1 example_dummy_feature (features (example_stats k)) = [example_feature k]"
  "num_non_missing (common_stats_of (example_feature k)) = k"
  "f_path (example_feature k) = [''F'']"
  by (simp_all add: example_stats_def example_feature_def example_dummy_feature_def
      DUMMY_FEATURE_PATH_def NUM_EXAMPLES_KEY_def WEIGHTED_NUM_EXAMPLES_KEY_def
      get_custom_stats_def common_stats_of_def)

theorem update_example_and_missing_count_reconciles_witness:
  "(\<exists>s'. update_example_and_missing_count (example_stats 7) = Inr s'
        \<and> dataset_num_examples s' = 10
        \<and> length (features s') = 1
        \<and> f_path (features s' ! 0) = [''F'']
        \<and> num_non_missing (common_stats_of (features s' ! 0)) = 7
        \<and> num_missing (common_stats_of (features s' ! 0)) = 3)
   \<and> update_example_and_missing_count (example_stats 11) = Inl AssertionError"
proof -
  let ?rem7 = "remove1 example_dummy_feature (features (example_stats 7))"
  let ?rem11 = "remove1 example_dummy_feature (features (example_stats 11))"
  note t7 = update_example_and_missing_count_reconciles
    [OF example_stats_lookup(1)[of 7] example_stats_lookup(2) example_stats_lookup(3)]
  note t11 = update_example_and_missing_count_reconciles
    [OF example_stats_lookup(1)[of 11] example_stats_lookup(2) example_stats_lookup(3)]
  have rem7: "?rem7 = [example_feature 7]" by (rule example_stats_lookup(4))
  have pre11: "\<exists>f \<in> set ?rem11. 10 < real (num_non_missing (common_stats_of f))"
    by (simp add: example_stats_lookup)
  have e11: "update_example_and_missing_count (example_stats 11) = Inl AssertionError"
    by (rule t11[THEN conjunct1, THEN mp, OF pre11])
  have pre7: "(\<forall>f \<in> set ?rem7. real (num_non_missing (common_stats_of f)) \<le> 10) \<and> (0::real) \<le> 10"
    by (simp add: example_stats_lookup)
  note ex = t7[THEN conjunct2, THEN mp, OF pre7]
  from ex obtain s' where all: "update_example_and_missing_count (example_stats 7) = Inr s'
             \<and> int (dataset_num_examples s') = \<lfloor>10::real\<rfloor>
             \<and> length (features s') = length ?rem7
             \<and> (\<forall>i < length (features s').
                   f_path (features s' ! i) = f_path (?rem7 ! i)
                 \<and> num_non_missing (common_stats_of (features s' ! i))
                     = num_non_missing (common_stats_of (?rem7 ! i))
                 \<and> int (num_missing (common_stats_of (features s' ! i)))
                     = \<lfloor>10 - real (num_non_missing (common_stats_of (?rem7 ! i)))\<rfloor>
                 \<and> (0 \<noteq> (0::real) \<longrightarrow>
                      wcs_num_missing (weighted_common_stats (common_stats_of (features s' ! i)))
                        = 0 - wcs_num_non_missing (weighted_common_stats
                                (common_stats_of (?rem7 ! i)))))
             \<and> (distinct (map f_path (features (example_stats 7))) \<longrightarrow>
                   DUMMY_FEATURE_PATH \<notin> f_path ` set (features s'))" ..
  have r: "update_example_and_missing_count (example_stats 7) = Inr s'"
    using all by (rule conjunct1)
  have ne: "int (dataset_num_examples s') = \<lfloor>10::real\<rfloor>"
    using all by (elim conjE)
  have len: "length (features s') = length ?rem7"
    using all by (elim conjE)
  have each: "f_path (features s' ! 0) = f_path (?rem7 ! 0)
                 \<and> num_non_missing (common_stats_of (features s' ! 0))
                     = num_non_missing (common_stats_of (?rem7 ! 0))
                 \<and> int (num_missing (common_stats_of (features s' ! 0)))
                     = \<lfloor>10 - real (num_non_missing (common_stats_of (?rem7 ! 0)))\<rfloor>"
  proof -
    have "0 < length (features s')" using len rem7 by simp
    moreover have "\<forall>i < length (features s').
                   f_path (features s' ! i) = f_path (?rem7 ! i)
                 \<and> num_non_missing (common_stats_of (features s' ! i))
                     = num_non_missing (common_stats_of (?rem7 ! i))
                 \<and> int (num_missing (common_stats_of (features s' ! i)))
                     = \<lfloor>10 - real (num_non_missing (common_stats_of (?rem7 ! i)))\<rfloor>
                 \<and> (0 \<noteq> (0::real) \<longrightarrow>
                      wcs_num_missing (weighted_common_stats (common_stats_of (features s' ! i)))
                        = 0 - wcs_num_non_missing (weighted_common_stats
                                (common_stats_of (?rem7 ! i))))"
      using all by (elim conjE)
    ultimately show ?thesis by blast
  qed
  have p: "f_path (features s' ! 0) = [''F'']"
    using each by (simp add: rem7 example_stats_lookup)
  have nn: "num_non_missing (common_stats_of (features s' ! 0)) = 7"
    using each by (simp add: rem7 example_stats_lookup)
  have "int (num_missing (common_stats_of (features s' ! 0))) = 3"
    using each by (simp add: rem7 example_stats_lookup)
  then have nm: "num_missing (common_stats_of (features s' ! 0)) = 3" by simp
  have de: "dataset_num_examples s' = 10" using ne by simp
  have l1: "length (features s') = 1" using len rem7 by simp
  have "update_example_and_missing_count (example_stats 7) = Inr s'
        \<and> dataset_num_examples s' = 10
        \<and> length (features s') = 1
        \<and> f_path (features s' ! 0) = [''F'']
        \<and> num_non_missing (common_stats_of (features s' ! 0)) = 7
        \<and> num_missing (common_stats_of (features s' ! 0)) = 3"
    by (intro conjI) (fact r, fact de, fact l1, fact p, fact nn, fact nm)
  then have "\<exists>s'. update_example_and_missing_count (example_stats 7) = Inr s'
        \<and> dataset_num_examples s' = 10
        \<and> length (features s') = 1
        \<and> f_path (features s' ! 0) = [''F'']
        \<and> num_non_missing (common_stats_of (features s' ! 0)) = 7
        \<and> num_missing (common_stats_of (features s' ! 0)) = 3" ..
  then show ?thesis using e11 by (rule conjI)
qed

section \<open>Properties of the top-k and uniques combiner\<close>

lemma first_sub_batch_acc:
  "topk_add_input weighted_topk_generator topk_create_accumulator first_sub_batch = Inr first_acc"
  by (simp add: topk_add_input_def weighted_topk_generator_def topk_create_accumulator_def
      first_sub_batch_def first_acc_def flatten_rows_def parent_indices_rows_def
      ValueCounts_def take_indices_def enumerate_eq_zip)

lemma second_sub_batch_acc:
  "topk_add_input weighted_topk_generator topk_create_accumulator second_sub_batch = Inr second_acc"
  by (simp add: topk_add_input_def weighted_topk_generator_def topk_create_accumulator_def
      second_sub_batch_def second_acc_def flatten_rows_def parent_indices_rows_def
      ValueCounts_def take_indices_def enumerate_eq_zip counter_add_def)

lemma whole_batch_acc:
  "topk_add_input weighted_topk_generator topk_create_accumulator whole_batch = Inr second_acc"
  by (simp add: topk_add_input_def weighted_topk_generator_def topk_create_accumulator_def
      whole_batch_def second_acc_def flatten_rows_def parent_indices_rows_def
      ValueCounts_def take_indices_def enumerate_eq_zip counter_add_def upt_rec)

lemma merge_first_second:
  "topk_merge_accumulators [first_acc, second_acc]
     = [([''f''], \<lparr>unweighted_counts = [(BytesValue ''x'', 1)], weighted_counts = []\<rparr>)]"
  by (simp add: topk_merge_accumulators_def first_acc_def second_acc_def counter_update_def
      counter_add_def)

lemma merge_second_first:
  "topk_merge_accumulators [second_acc, first_acc]
     = [([''f''], \<lparr>unweighted_counts = [(BytesValue ''x'', 1)],
                  weighted_counts = [(BytesValue ''x'', 3)]\<rparr>)]"
  by (simp add: topk_merge_accumulators_def first_acc_def second_acc_def counter_update_def
      counter_add_def)

lemma whole_is_append: "append_tables first_sub_batch second_sub_batch = Some whole_batch"
  by (simp add: first_sub_batch_def second_sub_batch_def whole_batch_def)

lemma frequent_single: "frequent_entries 1 [(BytesValue ''x'', c)] = (if c < 1 then [] else [(BytesValue ''x'', c)])"
  by (simp add: frequent_entries_def sort_value_counts_def)

lemma extract_merged_first_second:
  "topk_extract_output ascii_only weighted_topk_generator
     [([''f''], \<lparr>unweighted_counts = [(BytesValue ''x'', 1)], weighted_counts = []\<rparr>)]
   = Inr [\<lparr>fs_path = [''f''], fs_type = Type_STRING,
           string_stats =
             \<lparr>unique = Some 1,
              top_values = [\<lparr>fv_value = ''x'', fv_frequency = 1\<rparr>],
              rank_histogram = [\<lparr>low_rank = 0, high_rank = 0, sample_count = 1, label = ''x''\<rparr>],
              weighted_string_stats = None\<rparr>\<rparr>]"
  by (simp add: topk_extract_output_def weighted_topk_generator_def make_feature_stats_proto_def
      topk_stats_unweighted frequent_single top_value_of_def bucket_of_def value_label_def
      ascii_only_def)

lemma extract_second_acc:
  "topk_extract_output ascii_only weighted_topk_generator second_acc
   = Inr [\<lparr>fs_path = [''f''], fs_type = Type_STRING,
           string_stats =
             \<lparr>unique = Some 1,
              top_values = [\<lparr>fv_value = ''x'', fv_frequency = 1\<rparr>],
              rank_histogram = [\<lparr>low_rank = 0, high_rank = 0, sample_count = 1, label = ''x''\<rparr>],
              weighted_string_stats =
                Some \<lparr>w_top_values = [\<lparr>fv_value = ''x'', fv_frequency = 3\<rparr>],
                      w_rank_histogram =
                        [\<lparr>low_rank = 0, high_rank = 0, sample_count = 3, label = ''x''\<rparr>]\<rparr>\<rparr>\<rparr>]"
  by (simp add: topk_extract_output_def weighted_topk_generator_def second_acc_def
      make_feature_stats_proto_def Let_def
      topk_stats_unweighted topk_stats_weighted frequent_single top_value_of_def bucket_of_def
      value_label_def ascii_only_def)

text \<open>
  Claim C2 (\<open>merge_accumulators\<close> is associative and independent of the order). The code
  is not. The two accumulators are those of the two sub-batches: in the first the feature
  \<open>f\<close> has no value, so both its counters are empty; in the second \<open>f\<close> has the value
  \<open>x\<close> once, with weight 3. Merged with the first accumulator first, the weighted count
  of \<open>x\<close> is lost, because line 238 updates the weighted counter of the result only when
  it is not empty; merged in the other order it is kept, and the two outputs differ.
\<close>

theorem topk_merge_accumulators_order_dependent:
  "topk_add_input weighted_topk_generator topk_create_accumulator first_sub_batch = Inr first_acc
   \<and> topk_add_input weighted_topk_generator topk_create_accumulator second_sub_batch = Inr second_acc
   \<and> topk_merge_accumulators [first_acc, second_acc]
       = [([''f''], \<lparr>unweighted_counts = [(BytesValue ''x'', 1)], weighted_counts = []\<rparr>)]
   \<and> topk_merge_accumulators [second_acc, first_acc]
       = [([''f''], \<lparr>unweighted_counts = [(BytesValue ''x'', 1)],
                    weighted_counts = [(BytesValue ''x'', 3)]\<rparr>)]
   \<and> topk_extract_output ascii_only weighted_topk_generator
         (topk_merge_accumulators [first_acc, second_acc])
       \<noteq> topk_extract_output ascii_only weighted_topk_generator
           (topk_merge_accumulators [second_acc, first_acc])"
proof -
  have "topk_extract_output ascii_only weighted_topk_generator
         (topk_merge_accumulators [first_acc, second_acc])
       \<noteq> topk_extract_output ascii_only weighted_topk_generator
           (topk_merge_accumulators [second_acc, first_acc])"
    unfolding merge_first_second merge_second_first second_acc_def[symmetric]
      extract_merged_first_second extract_second_acc
    by simp
  then show ?thesis
    using first_sub_batch_acc second_sub_batch_acc merge_first_second merge_second_first
    by (intro conjI)
qed

text \<open>
  Claim C3 (folding a batch in two parts and merging gives the output of folding it whole).
  The code does not. The batch of two rows is split after its first row: the parts folded
  apart and merged give no weighted statistics for \<open>f\<close>, the batch folded whole gives
  the weighted count 3 for \<open>x\<close>. The cause is the guard of line 238 in
  \<open>merge_accumulators\<close>, as for claim C2.
\<close>

theorem topk_split_batch_differs_from_whole:
  "append_tables first_sub_batch second_sub_batch = Some whole_batch
   \<and> fold_split_and_merge ascii_only weighted_topk_generator first_sub_batch second_sub_batch
     = Inr [\<lparr>fs_path = [''f''], fs_type = Type_STRING,
           string_stats =
             \<lparr>unique = Some 1,
              top_values = [\<lparr>fv_value = ''x'', fv_frequency = 1\<rparr>],
              rank_histogram = [\<lparr>low_rank = 0, high_rank = 0, sample_count = 1, label = ''x''\<rparr>],
              weighted_string_stats = None\<rparr>\<rparr>]
   \<and> fold_whole ascii_only weighted_topk_generator whole_batch
     = Inr [\<lparr>fs_path = [''f''], fs_type = Type_STRING,
           string_stats =
             \<lparr>unique = Some 1,
              top_values = [\<lparr>fv_value = ''x'', fv_frequency = 1\<rparr>],
              rank_histogram = [\<lparr>low_rank = 0, high_rank = 0, sample_count = 1, label = ''x''\<rparr>],
              weighted_string_stats =
                Some \<lparr>w_top_values = [\<lparr>fv_value = ''x'', fv_frequency = 3\<rparr>],
                      w_rank_histogram =
                        [\<lparr>low_rank = 0, high_rank = 0, sample_count = 3, label = ''x''\<rparr>]\<rparr>\<rparr>\<rparr>]
   \<and> fold_split_and_merge ascii_only weighted_topk_generator first_sub_batch second_sub_batch
     \<noteq> fold_whole ascii_only weighted_topk_generator whole_batch"
proof -
  have s: "fold_split_and_merge ascii_only weighted_topk_generator first_sub_batch second_sub_batch
     = Inr [\<lparr>fs_path = [''f''], fs_type = Type_STRING,
           string_stats =
             \<lparr>unique = Some 1,
              top_values = [\<lparr>fv_value = ''x'', fv_frequency = 1\<rparr>],
              rank_histogram = [\<lparr>low_rank = 0, high_rank = 0, sample_count = 1, label = ''x''\<rparr>],
              weighted_string_stats = None\<rparr>\<rparr>]"
    by (simp add: fold_split_and_merge_def first_sub_batch_acc second_sub_batch_acc
        merge_first_second extract_merged_first_second)
  have w: "fold_whole ascii_only weighted_topk_generator whole_batch
     = Inr [\<lparr>fs_path = [''f''], fs_type = Type_STRING,
           string_stats =
             \<lparr>unique = Some 1,
              top_values = [\<lparr>fv_value = ''x'', fv_frequency = 1\<rparr>],
              rank_histogram = [\<lparr>low_rank = 0, high_rank = 0, sample_count = 1, label = ''x''\<rparr>],
              weighted_string_stats =
                Some \<lparr>w_top_values = [\<lparr>fv_value = ''x'', fv_frequency = 3\<rparr>],
                      w_rank_histogram =
                        [\<lparr>low_rank = 0, high_rank = 0, sample_count = 3, label = ''x''\<rparr>]\<rparr>\<rparr>\<rparr>]"
    by (simp add: fold_whole_def whole_batch_acc extract_second_acc)
  have d: "fold_split_and_merge ascii_only weighted_topk_generator first_sub_batch second_sub_batch
     \<noteq> fold_whole ascii_only weighted_topk_generator whole_batch"
    unfolding s w by simp
  show ?thesis using whole_is_append s w d by (intro conjI)
qed

end
